theory Spec2Isabelle
  imports Main "HOL-Library.Word"
begin

section \<open>Vocabulary shared by the three backends\<close>

text \<open>
  The backends of \<^verbatim>\<open>backend_libnsgif.c\<close> (GIF), of the libpng file that follows it in the
  same source file (PNG) and of \<^verbatim>\<open>backend_libjxl.c\<close> (JPEG-XL) are embedded function by
  function. The three backends each declare a \<^verbatim>\<open>struct private\<close> and functions named
  \<^verbatim>\<open>first_frame\<close>, \<^verbatim>\<open>open_path\<close>, ...; here a name that occurs in more than one backend
  carries the backend as a suffix (\<open>first_frame_gif\<close>, \<open>data_png\<close>).

  The codec libraries (libnsgif, libpng, libjxl) and the operating system are not part of
  the repository. Each is a parameter of the functions that call it: a record whose fields
  are the answers the library gives. Heap allocation (\<^verbatim>\<open>malloc\<close>, \<^verbatim>\<open>calloc\<close>) is taken to
  succeed, as the code takes it: no result of an allocation is tested anywhere in the two
  files. One allocation is a parameter instead, so that running out of memory in a frame
  function can be stated: the array of row pointers in \<^verbatim>\<open>load_image\<close> of the PNG backend,
  which that function writes through itself before it decodes.
\<close>

type_synonym byte = "8 word"

text \<open>A non-null address; a C pointer is an \<open>addr option\<close> with \<open>None\<close> for \<^verbatim>\<open>NULL\<close>.\<close>

type_synonym addr = nat

datatype backend_result = BACKEND_SUCCESS | BACKEND_BAD_PATH | BACKEND_UNSUPPORTED

text \<open>
  What ends the process instead of returning: a read or write through a null pointer, a
  read or write past the end of an object, an integer division by zero.
\<close>

datatype fault = NullDeref | OutOfBounds | DivByZero

datatype imv_pixelformat = IMV_ABGR

text \<open>\<^verbatim>\<open>struct imv_bitmap\<close>: \<^verbatim>\<open>int width, height\<close>, the format and the byte buffer.\<close>

record imv_bitmap =
  bmp_width :: int
  bmp_height :: int
  bmp_format :: imv_pixelformat
  bmp_data :: "byte list"

text \<open>\<^verbatim>\<open>imv_image_create_from_bitmap\<close> wraps exactly one bitmap.\<close>

datatype imv_image = Image (bitmap_of: imv_bitmap)

text \<open>
  A C \<^verbatim>\<open>int\<close> (32 bits) converted to \<^verbatim>\<open>size_t\<close> (64 bits): sign extension, read as an
  unsigned number.
\<close>

definition size_t_of_int :: "32 word \<Rightarrow> nat" where
  "size_t_of_int i = unat (scast i :: 64 word)"

text \<open>
  \<^verbatim>\<open>memcpy(malloc(n), src, n)\<close>: the fresh buffer of \<open>n\<close> bytes, filled from \<open>src\<close>. Nothing
  is read when \<open>n = 0\<close>; otherwise a null source or a source object shorter than \<open>n\<close> bytes
  is a fault.
\<close>

definition memcpy :: "byte list option \<Rightarrow> nat \<Rightarrow> fault + byte list" where
  "memcpy src n =
     (if n = 0 then Inr []
      else case src of
             None \<Rightarrow> Inl NullDeref
           | Some bs \<Rightarrow> if length bs < n then Inl OutOfBounds else Inr (take n bs))"

text \<open>
  The operating system. \<open>None\<close> for a path is a file that cannot be opened (\<^verbatim>\<open>open\<close>
  returns a negative descriptor, \<^verbatim>\<open>fopen\<close> returns \<^verbatim>\<open>NULL\<close>): it does not exist, or may
  not be read. For a file that opens: its bytes, the result of
  \<^verbatim>\<open>lseek(fd, 0, SEEK_END)\<close> (negative on failure), the address \<^verbatim>\<open>mmap\<close> returns
  (\<open>None\<close> for \<^verbatim>\<open>MAP_FAILED\<close> or \<^verbatim>\<open>NULL\<close>), whether \<^verbatim>\<open>fread\<close> fails with an error, and the
  number that stands for its \<^verbatim>\<open>FILE *\<close>.
\<close>

record os_file =
  file_bytes :: "byte list"
  lseek_end :: int
  mmap_addr :: "addr option"
  fread_error :: bool
  file_stream :: nat

type_synonym filesystem = "string \<Rightarrow> os_file option"

text \<open>
  The release calls of a function, in the order it makes them: those of a
  \<^verbatim>\<open>free_private\<close>, and those \<^verbatim>\<open>load_image\<close> of the PNG backend makes through \<^verbatim>\<open>read_end\<close>.
  \<open>Munmap\<close> carries the pointer and the length it is called with. \<open>Free_input\<close> is a
  \<^verbatim>\<open>free\<close> of input bytes at an address; it is here to state what the specification asks
  of heap input, and no backend has such a call.
\<close>

datatype action =
    Nsgif_destroy
  | Png_destroy_read_struct
  | Munmap "addr option" int
  | Fclose nat
  | Free_input addr
  | Free_frame_data nat
  | Free_frames
  | Free_private

section \<open>The GIF backend (libnsgif)\<close>

datatype nsgif_error =
    NSGIF_OK
  | NSGIF_ERR_OOM
  | NSGIF_ERR_DATA
  | NSGIF_ERR_BAD_FRAME
  | NSGIF_ERR_DATA_FRAME
  | NSGIF_ERR_END_OF_DATA
  | NSGIF_ERR_DATA_COMPLETE
  | NSGIF_ERR_FRAME_DISPLAY
  | NSGIF_ERR_ANIMATION_END

text \<open>
  The decoder object \<^verbatim>\<open>nsgif_t\<close> once the data was scanned: \<^verbatim>\<open>nsgif_get_info\<close> gives
  \<open>gif_width\<close>, \<open>gif_height\<close> and \<open>gif_frame_count\<close> (\<^verbatim>\<open>uint32_t\<close> in \<^verbatim>\<open>nsgif.h\<close>);
  \<open>nsgif_frame_decode\<close> gives, for a frame index, the error code and the bytes of the
  bitmap it hands out; \<open>gif_frame_delay\<close> is \<^verbatim>\<open>nsgif_get_frame_info(gif, frame)->delay\<close>.
  libnsgif decodes from the first frame again whenever the frame asked for is not the
  one after the last decoded, so the answer for an index is taken not to depend on the
  calls before.
\<close>

record nsgif_t =
  gif_width :: "32 word"
  gif_height :: "32 word"
  gif_frame_count :: "32 word"
  nsgif_frame_decode :: "32 word \<Rightarrow> nsgif_error \<times> byte list"
  gif_frame_delay :: "32 word \<Rightarrow> 32 word"

text \<open>
  The library at open time: the code of \<^verbatim>\<open>nsgif_create\<close>, the code of
  \<^verbatim>\<open>nsgif_data_scan\<close> for a buffer, and the decoder object the scan leaves.
\<close>

record nsgif_lib =
  nsgif_create :: nsgif_error
  nsgif_data_scan :: "byte list \<Rightarrow> nsgif_error"
  nsgif_scanned :: "byte list \<Rightarrow> nsgif_t"

text \<open>\<^verbatim>\<open>struct private\<close> of the GIF backend; \<^verbatim>\<open>int current_frame\<close> as its 32 bits.\<close>

record private_gif =
  current_frame :: "32 word"
  gif :: nsgif_t
  data_gif :: "addr option"
  len_gif :: int

definition free_private_gif :: "private_gif option \<Rightarrow> action list" where
  "free_private_gif raw_private =
     (case raw_private of
        None \<Rightarrow> []
      | Some private \<Rightarrow> [Nsgif_destroy, Munmap (data_gif private) (len_gif private), Free_private])"

text \<open>
  \<^verbatim>\<open>push_current_image\<close>. \<^verbatim>\<open>size_t len = 4 * bmp->width * bmp->height\<close> is a product of
  \<^verbatim>\<open>int\<close>s, converted afterwards; the product wraps at 32 bits here, the two's complement
  result of the compilers in use (C leaves signed overflow undefined).
  \<^verbatim>\<open>frame_info->delay * 10.0\<close> is exact in double precision and is then converted to
  \<^verbatim>\<open>int\<close>; the model keeps the product (it fits the \<^verbatim>\<open>int\<close> for every delay a GIF can
  hold, a 16-bit count of hundredths of a second).
\<close>

definition push_current_image :: "private_gif \<Rightarrow> byte list \<Rightarrow> fault + (imv_image \<times> int)" where
  "push_current_image private gif_frame_data =
     (let w = gif_width (gif private);
          h = gif_height (gif private);
          len = size_t_of_int (4 * w * h)
      in case memcpy (Some gif_frame_data) len of
           Inl f \<Rightarrow> Inl f
         | Inr d \<Rightarrow>
             Inr (Image \<lparr>bmp_width = sint w, bmp_height = sint h, bmp_format = IMV_ABGR, bmp_data = d\<rparr>,
                  uint (gif_frame_delay (gif private) (current_frame private)) * 10))"

text \<open>
  The frame functions return the new private state, \<^verbatim>\<open>*image\<close> (\<open>None\<close> for \<^verbatim>\<open>NULL\<close>) and
  \<^verbatim>\<open>*frametime\<close>. Both outputs are first set to \<^verbatim>\<open>NULL\<close> and 0.
\<close>

definition first_frame_gif :: "private_gif \<Rightarrow> fault + (private_gif \<times> imv_image option \<times> int)" where
  "first_frame_gif raw_private =
     (let private = raw_private\<lparr>current_frame := 0\<rparr>;
          (code, gif_frame_data) = nsgif_frame_decode (gif private) (current_frame private)
      in if code \<noteq> NSGIF_OK then Inr (private, None, 0)
         else case push_current_image private gif_frame_data of
                Inl f \<Rightarrow> Inl f
              | Inr (img, frametime) \<Rightarrow> Inr (private, Some img, frametime))"

text \<open>
  \<^verbatim>\<open>next_frame\<close>: \<^verbatim>\<open>current_frame++\<close>, then \<^verbatim>\<open>current_frame %= gif_info->frame_count\<close>, an
  unsigned remainder since \<^verbatim>\<open>frame_count\<close> is unsigned; a frame count of 0 divides by
  zero.
\<close>

definition next_frame_gif :: "private_gif \<Rightarrow> fault + (private_gif \<times> imv_image option \<times> int)" where
  "next_frame_gif raw_private =
     (let private1 = raw_private\<lparr>current_frame := current_frame raw_private + 1\<rparr>
      in if gif_frame_count (gif private1) = 0 then Inl DivByZero
         else
           let private = private1\<lparr>current_frame := current_frame private1 mod gif_frame_count (gif private1)\<rparr>;
               (code, gif_frame_data) = nsgif_frame_decode (gif private) (current_frame private)
           in if code \<noteq> NSGIF_OK then Inr (private, None, 0)
              else case push_current_image private gif_frame_data of
                     Inl f \<Rightarrow> Inl f
                   | Inr (img, frametime) \<Rightarrow> Inr (private, Some img, frametime))"

text \<open>
  \<^verbatim>\<open>open_memory\<close>: the private state is zeroed by \<^verbatim>\<open>calloc\<close>; neither \<^verbatim>\<open>data\<close> nor
  \<^verbatim>\<open>len\<close> is stored, the buffer is only handed to the scan.
\<close>

definition open_memory_gif :: "nsgif_lib \<Rightarrow> byte list \<Rightarrow> backend_result \<times> private_gif option" where
  "open_memory_gif lib buf =
     (if nsgif_create lib \<noteq> NSGIF_OK then (BACKEND_UNSUPPORTED, None)
      else if nsgif_data_scan lib buf \<noteq> NSGIF_OK then (BACKEND_UNSUPPORTED, None)
      else (BACKEND_SUCCESS,
            Some \<lparr>current_frame = 0, gif = nsgif_scanned lib buf, data_gif = None, len_gif = 0\<rparr>))"

definition open_path_gif :: "nsgif_lib \<Rightarrow> filesystem \<Rightarrow> string \<Rightarrow> backend_result \<times> private_gif option" where
  "open_path_gif lib fs path =
     (case fs path of
        None \<Rightarrow> (BACKEND_BAD_PATH, None)
      | Some f \<Rightarrow>
          if lseek_end f < 0 then (BACKEND_BAD_PATH, None)
          else case mmap_addr f of
                 None \<Rightarrow> (BACKEND_BAD_PATH, None)
               | Some a \<Rightarrow>
                   if nsgif_create lib \<noteq> NSGIF_OK then (BACKEND_UNSUPPORTED, None)
                   else if nsgif_data_scan lib (file_bytes f) \<noteq> NSGIF_OK then (BACKEND_UNSUPPORTED, None)
                   else (BACKEND_SUCCESS,
                         Some \<lparr>current_frame = 0, gif = nsgif_scanned lib (file_bytes f),
                               data_gif = Some a, len_gif = lseek_end f\<rparr>))"

text \<open>
  A caller's session: \<^verbatim>\<open>load_first_frame\<close>, then \<open>k\<close> times \<^verbatim>\<open>load_next_frame\<close>; the result
  is the one of the last call. A fault ends the session.
\<close>

fun play_gif :: "nat \<Rightarrow> private_gif \<Rightarrow> fault + (private_gif \<times> imv_image option \<times> int)" where
  "play_gif 0 p = first_frame_gif p"
| "play_gif (Suc k) p =
     (case play_gif k p of
        Inl f \<Rightarrow> Inl f
      | Inr (p', _, _) \<Rightarrow> next_frame_gif p')"

text \<open>
  What loading the frame of index \<open>i\<close> gives: the part \<^verbatim>\<open>first_frame\<close> and \<^verbatim>\<open>next_frame\<close>
  have in common once the index is set.
\<close>

definition load_frame_gif :: "private_gif \<Rightarrow> 32 word \<Rightarrow> fault + (private_gif \<times> imv_image option \<times> int)" where
  "load_frame_gif p i =
     (let private = p\<lparr>current_frame := i\<rparr>;
          (code, gif_frame_data) = nsgif_frame_decode (gif private) i
      in if code \<noteq> NSGIF_OK then Inr (private, None, 0)
         else case push_current_image private gif_frame_data of
                Inl f \<Rightarrow> Inl f
              | Inr (img, frametime) \<Rightarrow> Inr (private, Some img, frametime))"

text \<open>A three-frame GIF of one pixel, 100 ms a frame, for the concrete instances.\<close>

definition gif3 :: nsgif_t where
  "gif3 = \<lparr>gif_width = 1, gif_height = 1, gif_frame_count = 3,
           nsgif_frame_decode = (\<lambda>i. if i < 3 then (NSGIF_OK, [ucast i, 0, 0, 255]) else (NSGIF_ERR_BAD_FRAME, [])),
           gif_frame_delay = (\<lambda>i. 10)\<rparr>"

definition private_gif3 :: private_gif where
  "private_gif3 = \<lparr>current_frame = 0, gif = gif3, data_gif = None, len_gif = 0\<rparr>"

section \<open>The PNG backend (libpng)\<close>

definition SIG_SIZE :: nat where
  "SIG_SIZE = 8"

text \<open>
  \<^verbatim>\<open>png_sig_cmp(sig, start, num_to_check)\<close> of libpng compares \<open>num_to_check\<close> bytes from
  \<open>start\<close> with the PNG signature and returns 0 when they agree; here \<open>True\<close> is a
  non-zero result.
\<close>

definition png_signature :: "byte list" where
  "png_signature = [137, 80, 78, 71, 13, 10, 26, 10]"

definition png_sig_cmp :: "byte list \<Rightarrow> nat \<Rightarrow> nat \<Rightarrow> bool" where
  "png_sig_cmp sig start num_to_check =
     (take num_to_check (drop start sig) \<noteq> take num_to_check (drop start png_signature))"

text \<open>
  \<^verbatim>\<open>struct private\<close> of the PNG backend. \<open>file_png\<close> is the open \<^verbatim>\<open>FILE *\<close>, \<open>data_png\<close> the
  address kept in memory mode, \<open>len_png\<close> and \<open>pos\<close> are \<^verbatim>\<open>size_t\<close>; \<open>png\<close> says that
  \<^verbatim>\<open>private->png\<close> is not \<^verbatim>\<open>NULL\<close> (the lifetime of \<^verbatim>\<open>private->info\<close> is the same).
\<close>

record private_png =
  file_png :: "nat option"
  data_png :: "addr option"
  len_png :: "64 word"
  pos :: "64 word"
  png :: bool

text \<open>
  libpng on the stream at hand: whether \<^verbatim>\<open>png_create_read_struct\<close> and
  \<^verbatim>\<open>png_create_info_struct\<close> return an object; whether \<^verbatim>\<open>png_read_info\<close> and the calls
  after it in \<^verbatim>\<open>setup_png\<close> return (\<open>False\<close>: libpng jumps back to the \<^verbatim>\<open>setjmp\<close>), given
  the bytes the read callback can deliver; the width, height and row size it reports;
  and what \<^verbatim>\<open>png_read_image\<close> leaves in the buffer, by offset (\<open>None\<close>: it jumps back).
  \<open>png_read_info_reads\<close> and \<open>png_read_image_reads\<close> are the sizes libpng asks of the read
  callback, call after call, while it is in \<^verbatim>\<open>png_read_info\<close> and in \<^verbatim>\<open>png_read_image\<close>.
\<close>

record libpng =
  png_create_read_struct :: bool
  png_create_info_struct :: bool
  png_read_info :: "byte list \<Rightarrow> bool"
  png_read_info_reads :: "64 word list"
  png_get_image_width :: "32 word"
  png_get_image_height :: "32 word"
  png_get_rowbytes :: "64 word"
  png_read_image :: "(nat \<Rightarrow> byte) option"
  png_read_image_reads :: "64 word list"

text \<open>
  \<^verbatim>\<open>read_end\<close>: the new state and what was released. \<^verbatim>\<open>png_destroy_read_struct\<close> sets
  \<^verbatim>\<open>private->png\<close> to \<^verbatim>\<open>NULL\<close>.
\<close>

definition read_end :: "private_png \<Rightarrow> private_png \<times> action list" where
  "read_end private =
     (let (p1, a1) = (if png private then (private\<lparr>png := False\<rparr>, [Png_destroy_read_struct])
                      else (private, []))
      in case file_png p1 of
           Some f \<Rightarrow> (p1\<lparr>file_png := None\<rparr>, a1 @ [Fclose f])
         | None \<Rightarrow> (p1, a1))"

definition free_private_png :: "private_png option \<Rightarrow> action list" where
  "free_private_png raw_private =
     (case raw_private of
        None \<Rightarrow> []
      | Some private \<Rightarrow> snd (read_end private) @ [Free_private])"

text \<open>
  \<^verbatim>\<open>read_memory\<close>, the read callback of memory mode. \<open>view\<close> is the memory from
  \<^verbatim>\<open>private->data\<close> on. When fewer than \<open>sz\<close> bytes are left it returns without writing
  (\<open>None\<close>) and without telling libpng; otherwise it copies and advances \<^verbatim>\<open>pos\<close>.
\<close>

definition read_memory ::
  "byte list \<Rightarrow> private_png \<Rightarrow> 64 word \<Rightarrow> fault + (byte list option \<times> private_png)" where
  "read_memory view private sz =
     (if len_png private - pos private < sz then Inr (None, private)
      else case memcpy (Some (drop (unat (pos private)) view)) (unat sz) of
             Inl f \<Rightarrow> Inl f
           | Inr bytes \<Rightarrow> Inr (Some bytes, private\<lparr>pos := pos private + sz\<rparr>))"

text \<open>
  The reads of one call into libpng. A source opened from memory (\<^verbatim>\<open>private->data\<close> is
  set) has \<^verbatim>\<open>read_memory\<close> as its callback, called once for each size; a source opened by
  path is read by libpng from the stream, which leaves the private state alone.
\<close>

fun read_calls :: "byte list \<Rightarrow> private_png \<Rightarrow> 64 word list \<Rightarrow> fault + private_png" where
  "read_calls view private [] = Inr private"
| "read_calls view private (sz # szs) =
     (case read_memory view private sz of
        Inl f \<Rightarrow> Inl f
      | Inr (out, private') \<Rightarrow> read_calls view private' szs)"

definition png_reads :: "byte list \<Rightarrow> private_png \<Rightarrow> 64 word list \<Rightarrow> fault + private_png" where
  "png_reads view private szs =
     (if data_png private = None then Inr private else read_calls view private szs)"

text \<open>
  \<^verbatim>\<open>load_image\<close>; \<open>view\<close> is the memory from \<^verbatim>\<open>private->data\<close> on, for a source opened from
  memory. The result is the new state, \<^verbatim>\<open>*image\<close>, \<^verbatim>\<open>*frametime\<close> and what the call
  released. \<^verbatim>\<open>png_jmpbuf\<close> of a null \<^verbatim>\<open>png\<close> reads through a null pointer. The buffer is
  \<^verbatim>\<open>malloc(stride * height)\<close>, the \<^verbatim>\<open>int height\<close> converted to \<^verbatim>\<open>size_t\<close>; its bytes are
  those \<^verbatim>\<open>png_read_image\<close> leaves. \<open>row_pointers\<close> says whether
  \<^verbatim>\<open>malloc(sizeof(png_bytep) * height)\<close> returns an array: the loop that follows writes
  \<^verbatim>\<open>row_pointers[i]\<close> for every \<^verbatim>\<open>i\<close> below \<^verbatim>\<open>height\<close> without a test. A jump back from
  \<^verbatim>\<open>png_read_image\<close> returns with the outputs as first set; otherwise \<^verbatim>\<open>read_end\<close> is called
  before the bitmap is made.
\<close>

definition load_image ::
  "libpng \<Rightarrow> byte list \<Rightarrow> bool \<Rightarrow> private_png \<Rightarrow>
   fault + (private_png \<times> imv_image option \<times> int \<times> action list)" where
  "load_image lib view row_pointers raw_private =
     (if \<not> png raw_private then Inl NullDeref
      else
        let w = png_get_image_width lib;
            h = png_get_image_height lib;
            stride = png_get_rowbytes lib;
            n = unat (stride * scast h)
        in if \<not> row_pointers \<and> 0 < sint h then Inl NullDeref
           else case png_reads view raw_private (png_read_image_reads lib) of
                  Inl f \<Rightarrow> Inl f
                | Inr private \<Rightarrow>
                    (case png_read_image lib of
                       None \<Rightarrow> Inr (private, None, 0, [])
                     | Some raw \<Rightarrow>
                         let (private', released) = read_end private
                         in Inr (private',
                                 Some (Image \<lparr>bmp_width = sint w, bmp_height = sint h,
                                              bmp_format = IMV_ABGR, bmp_data = map raw [0..<n]\<rparr>),
                                 0, released)))"

definition init_private :: "libpng \<Rightarrow> private_png option" where
  "init_private lib =
     (if \<not> png_create_read_struct lib then None
      else if \<not> png_create_info_struct lib then None
      else Some \<lparr>file_png = None, data_png = None, len_png = 0, pos = 0, png = True\<rparr>)"

text \<open>\<^verbatim>\<open>setup_png\<close> on the bytes that can be read: 1 (\<open>True\<close>) unless libpng jumps back.\<close>

definition setup_png :: "libpng \<Rightarrow> byte list \<Rightarrow> bool" where
  "setup_png lib stream = png_read_info lib stream"

text \<open>
  \<^verbatim>\<open>open_path\<close>. \<^verbatim>\<open>fread\<close> gives fewer than \<^verbatim>\<open>SIG_SIZE\<close> bytes on an error, or at the end of
  a shorter file (then \<^verbatim>\<open>feof\<close> holds).
\<close>

definition open_path_png :: "libpng \<Rightarrow> filesystem \<Rightarrow> string \<Rightarrow> backend_result \<times> private_png option" where
  "open_path_png lib fs path =
     (case fs path of
        None \<Rightarrow> (BACKEND_BAD_PATH, None)
      | Some f \<Rightarrow>
          if fread_error f then (BACKEND_BAD_PATH, None)
          else if length (file_bytes f) < SIG_SIZE then (BACKEND_UNSUPPORTED, None)
          else if png_sig_cmp (take SIG_SIZE (file_bytes f)) 0 SIG_SIZE then (BACKEND_UNSUPPORTED, None)
          else case init_private lib of
                 None \<Rightarrow> (BACKEND_UNSUPPORTED, None)
               | Some private0 \<Rightarrow>
                   let private = private0\<lparr>file_png := Some (file_stream f)\<rparr>
                   in if \<not> setup_png lib (drop SIG_SIZE (file_bytes f)) then (BACKEND_UNSUPPORTED, None)
                      else (BACKEND_SUCCESS, Some private))"

text \<open>
  \<^verbatim>\<open>open_memory(data, len)\<close>. \<open>mem\<close> is the object \<open>data\<close> points to, at address \<open>a\<close>, of
  which the first \<open>len\<close> bytes are the caller's buffer. \<^verbatim>\<open>png_sig_cmp(data, 0, SIG_SIZE)\<close>
  reads \<^verbatim>\<open>SIG_SIZE\<close> bytes whatever \<open>len\<close> is: past the end of the object this is a fault,
  inside it the bytes after the buffer are compared. \<^verbatim>\<open>private->len = len - SIG_SIZE\<close> is
  unsigned and wraps; the read callback \<^verbatim>\<open>read_memory\<close> delivers bytes as long as
  \<^verbatim>\<open>private->len - private->pos\<close> is not below the size asked for, so the bytes it can
  deliver are the \<open>len_png\<close> bytes from \<^verbatim>\<open>data + SIG_SIZE\<close> on. The reads of
  \<^verbatim>\<open>png_read_info\<close> advance \<^verbatim>\<open>pos\<close>.
\<close>

definition open_memory_png ::
  "libpng \<Rightarrow> addr \<Rightarrow> byte list \<Rightarrow> nat \<Rightarrow> fault + (backend_result \<times> private_png option)" where
  "open_memory_png lib a mem len =
     (if length mem < SIG_SIZE then Inl OutOfBounds
      else if png_sig_cmp mem 0 SIG_SIZE then Inr (BACKEND_UNSUPPORTED, None)
      else case init_private lib of
             None \<Rightarrow> Inr (BACKEND_UNSUPPORTED, None)
           | Some private0 \<Rightarrow>
               let private = private0\<lparr>data_png := Some (a + SIG_SIZE),
                                       len_png := of_nat len - of_nat SIG_SIZE\<rparr>
               in case read_calls (drop SIG_SIZE mem) private (png_read_info_reads lib) of
                    Inl f \<Rightarrow> Inl f
                  | Inr private' \<Rightarrow>
                      if \<not> setup_png lib (take (unat (len_png private)) (drop SIG_SIZE mem))
                      then Inr (BACKEND_UNSUPPORTED, None)
                      else Inr (BACKEND_SUCCESS, Some private'))"


section \<open>The JPEG-XL backend (libjxl)\<close>

definition BACKEND_NB_CHANNELS :: "32 word" where
  "BACKEND_NB_CHANNELS = 4"

definition BACKEND_DEFAULT_FRAMETIME :: int where
  "BACKEND_DEFAULT_FRAMETIME = 100"

definition BACKEND_NB_ALLOC_FRAMES :: nat where
  "BACKEND_NB_ALLOC_FRAMES = 64"

text \<open>\<^verbatim>\<open>struct jxl_frame\<close>; all zero after \<^verbatim>\<open>calloc\<close> or \<^verbatim>\<open>memset\<close>.\<close>

record jxl_frame =
  data_frame :: "byte list option"
  frametime :: int

definition zero_frame :: jxl_frame where
  "zero_frame = \<lparr>data_frame = None, frametime = 0\<rparr>"

text \<open>
  \<^verbatim>\<open>struct private\<close> of the JPEG-XL backend. \<open>width\<close> and \<open>height\<close> are kept as the 32 bits
  of the \<^verbatim>\<open>int\<close>, since the buffer size is their product; the three counters are
  mathematical integers (they count frames and calls, and stay far from the 32-bit
  bounds). \<open>frames\<close> is the array \<^verbatim>\<open>pvt->frames\<close> with as many entries as were allocated.
\<close>

record private_jxl =
  data :: "addr option"
  data_len :: int
  owns_data :: int
  width :: "32 word"
  height :: "32 word"
  is_animation :: int
  frames :: "jxl_frame list option"
  nb_allocd_frames :: int
  cur_frame :: int
  nb_frames :: int

text \<open>The fields of \<^verbatim>\<open>JxlBasicInfo\<close> the backend reads.\<close>

record JxlBasicInfo =
  xsize :: "32 word"
  ysize :: "32 word"
  have_animation :: int
  tps_numerator :: "32 word"
  tps_denominator :: "32 word"

definition JXL_TRUE :: int where
  "JXL_TRUE = 1"

text \<open>
  The native decoder, as the statuses its successive \<^verbatim>\<open>JxlDecoderProcessInput\<close> calls
  return; a run ends with a status that ends the loop. With \<^verbatim>\<open>JXL_DEC_BASIC_INFO\<close> comes
  what \<^verbatim>\<open>JxlDecoderGetBasicInfo\<close> gives (\<open>None\<close>: it fails). With
  \<^verbatim>\<open>JXL_DEC_NEED_IMAGE_OUT_BUFFER\<close> comes the buffer of \<^verbatim>\<open>buf_sz\<close> bytes as the decoder
  fills it (\<open>None\<close>: \<^verbatim>\<open>JxlDecoderImageOutBufferSize\<close> fails) and whether
  \<^verbatim>\<open>JxlDecoderSetImageOutBuffer\<close> succeeds. \<open>JXL_DEC_unknown\<close> is any status the
  \<^verbatim>\<open>switch\<close> has no case for.
\<close>

datatype jxl_events =
    JXL_DEC_SUCCESS
  | JXL_DEC_ERROR
  | JXL_DEC_NEED_MORE_INPUT
  | JXL_DEC_unknown
  | JXL_DEC_BASIC_INFO "JxlBasicInfo option" jxl_events
  | JXL_DEC_NEED_IMAGE_OUT_BUFFER "byte list option" bool jxl_events
  | JXL_DEC_FULL_IMAGE jxl_events

text \<open>
  A decoder, the object \<^verbatim>\<open>JxlDecoderCreate\<close> returns: whether \<^verbatim>\<open>JxlDecoderSubscribeEvents\<close>
  and \<^verbatim>\<open>JxlDecoderSetInput\<close> succeed, what the local variable \<^verbatim>\<open>info\<close> holds before it is
  first written, and the run.
\<close>

record jxl_decoder =
  subscribe_events :: bool
  set_input :: bool
  stack_info :: JxlBasicInfo
  process_input :: jxl_events

definition free_private_jxl :: "private_jxl option \<Rightarrow> action list" where
  "free_private_jxl raw_pvt =
     (case raw_pvt of
        None \<Rightarrow> []
      | Some pvt \<Rightarrow>
          (if owns_data pvt \<noteq> 0
           then (case data pvt of Some a \<Rightarrow> [Munmap (Some a) (data_len pvt)] | None \<Rightarrow> [])
           else [])
          @ (case frames pvt of
               None \<Rightarrow> []
             | Some xs \<Rightarrow>
                 map Free_frame_data (filter (\<lambda>i. data_frame (xs ! i) \<noteq> None) [0..<length xs])
                 @ [Free_frames])
          @ [Free_private])"

text \<open>\<^verbatim>\<open>pvt->frames[i]\<close> for an \<^verbatim>\<open>int i\<close>.\<close>

definition frame_at :: "jxl_frame list option \<Rightarrow> int \<Rightarrow> fault + jxl_frame" where
  "frame_at fs i =
     (case fs of
        None \<Rightarrow> Inl NullDeref
      | Some xs \<Rightarrow> if 0 \<le> i \<and> i < int (length xs) then Inr (xs ! nat i) else Inl OutOfBounds)"

text \<open>
  \<^verbatim>\<open>push_frame\<close>. \<^verbatim>\<open>size_t sz = pvt->width * pvt->height * BACKEND_NB_CHANNELS\<close> is a product
  of \<^verbatim>\<open>int\<close>s, converted afterwards; it wraps at 32 bits here, as in the GIF backend.
\<close>

definition push_frame :: "private_jxl \<Rightarrow> fault + (imv_image \<times> int)" where
  "push_frame pvt =
     (let sz = size_t_of_int (width pvt * height pvt * BACKEND_NB_CHANNELS)
      in case frame_at (frames pvt) (cur_frame pvt) of
           Inl f \<Rightarrow> Inl f
         | Inr fr \<Rightarrow>
             (case memcpy (data_frame fr) sz of
                Inl f \<Rightarrow> Inl f
              | Inr d \<Rightarrow>
                  Inr (Image \<lparr>bmp_width = sint (width pvt), bmp_height = sint (height pvt),
                              bmp_format = IMV_ABGR, bmp_data = d\<rparr>,
                       frametime fr)))"

text \<open>
  The frametime \<^verbatim>\<open>first_frame\<close> stores with a frame: the unsigned quotient of the tick
  rate converted to \<^verbatim>\<open>int\<close>, the default, or 0.
\<close>

definition frametime_jxl :: "private_jxl \<Rightarrow> JxlBasicInfo \<Rightarrow> int" where
  "frametime_jxl pvt info =
     (if is_animation pvt \<noteq> 0
      then (if tps_numerator info \<noteq> 0 \<and> tps_denominator info \<noteq> 0
            then sint (tps_numerator info div tps_denominator info)
            else BACKEND_DEFAULT_FRAMETIME)
      else 0)"

text \<open>
  The \<^verbatim>\<open>realloc\<close> and \<^verbatim>\<open>memset\<close> when the array is full: \<^verbatim>\<open>BACKEND_NB_ALLOC_FRAMES\<close> more
  entries, zeroed from index \<^verbatim>\<open>nb_frames\<close> on, which is then the old end of the array.
\<close>

definition grow_frames :: "private_jxl \<Rightarrow> private_jxl" where
  "grow_frames pvt =
     pvt\<lparr>frames := Some ((case frames pvt of None \<Rightarrow> [] | Some xs \<Rightarrow> xs)
                           @ replicate BACKEND_NB_ALLOC_FRAMES zero_frame),
         nb_allocd_frames := nb_allocd_frames pvt + int BACKEND_NB_ALLOC_FRAMES\<rparr>"

text \<open>
  The \<^verbatim>\<open>do ... while\<close> loop of \<^verbatim>\<open>first_frame\<close> over the run of the decoder. The result is
  the state and whether the loop was left by \<^verbatim>\<open>JXL_DEC_SUCCESS\<close> (\<open>False\<close>:
  \<^verbatim>\<open>goto end\<close>). A write to \<^verbatim>\<open>pvt->frames[pvt->nb_frames]\<close> outside the array is a fault.
\<close>

fun decode_loop :: "private_jxl \<Rightarrow> JxlBasicInfo \<Rightarrow> jxl_events \<Rightarrow> fault + (private_jxl \<times> bool)" where
  "decode_loop pvt info JXL_DEC_SUCCESS = Inr (pvt, True)"
| "decode_loop pvt info JXL_DEC_ERROR = Inr (pvt, False)"
| "decode_loop pvt info JXL_DEC_NEED_MORE_INPUT = Inr (pvt, False)"
| "decode_loop pvt info JXL_DEC_unknown = Inr (pvt, False)"
| "decode_loop pvt info (JXL_DEC_BASIC_INFO got rest) =
     (case got of
        None \<Rightarrow> Inr (pvt, False)
      | Some info' \<Rightarrow>
          decode_loop
            (pvt\<lparr>width := xsize info', height := ysize info',
                 is_animation := (if have_animation info' = JXL_TRUE then 1 else 0)\<rparr>)
            info' rest)"
| "decode_loop pvt info (JXL_DEC_NEED_IMAGE_OUT_BUFFER buf set_ok rest) =
     (case buf of
        None \<Rightarrow> Inr (pvt, False)
      | Some filled \<Rightarrow>
          let pvt1 = (if nb_frames pvt = nb_allocd_frames pvt then grow_frames pvt else pvt)
          in case frames pvt1 of
               None \<Rightarrow> Inl NullDeref
             | Some xs \<Rightarrow>
                 if 0 \<le> nb_frames pvt1 \<and> nb_frames pvt1 < int (length xs)
                 then
                   let pvt2 = pvt1\<lparr>frames :=
                         Some (xs[nat (nb_frames pvt1) :=
                                    \<lparr>data_frame = Some filled, frametime = frametime_jxl pvt1 info\<rparr>])\<rparr>
                   in if \<not> set_ok then Inr (pvt2, False) else decode_loop pvt2 info rest
                 else Inl OutOfBounds)"
| "decode_loop pvt info (JXL_DEC_FULL_IMAGE rest) =
     decode_loop (pvt\<lparr>nb_frames := nb_frames pvt + 1\<rparr>) info rest"

text \<open>The state \<^verbatim>\<open>first_frame\<close> enters the loop with: no frame yet, a zeroed array.\<close>

definition start_decode :: "private_jxl \<Rightarrow> private_jxl" where
  "start_decode pvt =
     pvt\<lparr>nb_frames := 0, cur_frame := 0,
         nb_allocd_frames := int BACKEND_NB_ALLOC_FRAMES,
         frames := Some (replicate BACKEND_NB_ALLOC_FRAMES zero_frame)\<rparr>"

definition first_frame_jxl ::
  "jxl_decoder \<Rightarrow> private_jxl \<Rightarrow> fault + (private_jxl \<times> imv_image option \<times> int)" where
  "first_frame_jxl jxld pvt =
     (if \<not> subscribe_events jxld then Inr (pvt, None, 0)
      else if \<not> set_input jxld then Inr (pvt, None, 0)
      else case decode_loop (start_decode pvt) (stack_info jxld) (process_input jxld) of
             Inl f \<Rightarrow> Inl f
           | Inr (pvt', ok) \<Rightarrow>
               if \<not> ok then Inr (pvt', None, 0)
               else (case push_frame pvt' of
                       Inl f \<Rightarrow> Inl f
                     | Inr (img, ft) \<Rightarrow> Inr (pvt', Some img, ft)))"

definition next_frame_jxl :: "private_jxl \<Rightarrow> fault + (private_jxl \<times> imv_image option \<times> int)" where
  "next_frame_jxl raw_pvt =
     (let pvt = (if cur_frame raw_pvt = nb_frames raw_pvt - 1
                 then raw_pvt\<lparr>cur_frame := 0\<rparr>
                 else raw_pvt\<lparr>cur_frame := cur_frame raw_pvt + 1\<rparr>)
      in case push_frame pvt of
           Inl f \<Rightarrow> Inl f
         | Inr (img, ft) \<Rightarrow> Inr (pvt, Some img, ft))"

datatype JxlSignature =
    JXL_SIG_NOT_ENOUGH_BYTES
  | JXL_SIG_INVALID
  | JXL_SIG_CODESTREAM
  | JXL_SIG_CONTAINER

text \<open>The private state \<^verbatim>\<open>calloc\<close> gives: every field zero.\<close>

definition calloc_private_jxl :: private_jxl where
  "calloc_private_jxl =
     \<lparr>data = None, data_len = 0, owns_data = 0, width = 0, height = 0, is_animation = 0,
      frames = None, nb_allocd_frames = 0, cur_frame = 0, nb_frames = 0\<rparr>"

text \<open>
  \<^verbatim>\<open>open_memory\<close> and \<^verbatim>\<open>open_path\<close>; \<open>JxlSignatureCheck\<close>, the function of libjxl, is the
  first argument. In the \<^verbatim>\<open>switch\<close> the case \<^verbatim>\<open>JXL_SIG_NOT_ENOUGH_BYTES\<close> falls through to
  \<^verbatim>\<open>JXL_SIG_INVALID\<close>.
\<close>

definition open_memory_jxl ::
  "(byte list \<Rightarrow> JxlSignature) \<Rightarrow> addr \<Rightarrow> byte list \<Rightarrow> backend_result \<times> private_jxl option" where
  "open_memory_jxl JxlSignatureCheck a buf =
     (case JxlSignatureCheck buf of
        JXL_SIG_NOT_ENOUGH_BYTES \<Rightarrow> (BACKEND_UNSUPPORTED, None)
      | JXL_SIG_INVALID \<Rightarrow> (BACKEND_UNSUPPORTED, None)
      | _ \<Rightarrow> (BACKEND_SUCCESS,
              Some (calloc_private_jxl\<lparr>owns_data := 0, data := Some a, data_len := int (length buf)\<rparr>)))"

definition open_path_jxl ::
  "(byte list \<Rightarrow> JxlSignature) \<Rightarrow> filesystem \<Rightarrow> string \<Rightarrow> backend_result \<times> private_jxl option" where
  "open_path_jxl JxlSignatureCheck fs path =
     (case fs path of
        None \<Rightarrow> (BACKEND_BAD_PATH, None)
      | Some f \<Rightarrow>
          if lseek_end f < 0 then (BACKEND_BAD_PATH, None)
          else case mmap_addr f of
                 None \<Rightarrow> (BACKEND_BAD_PATH, None)
               | Some a \<Rightarrow>
                   (case JxlSignatureCheck (file_bytes f) of
                      JXL_SIG_NOT_ENOUGH_BYTES \<Rightarrow> (BACKEND_UNSUPPORTED, None)
                    | JXL_SIG_INVALID \<Rightarrow> (BACKEND_UNSUPPORTED, None)
                    | _ \<Rightarrow> (BACKEND_SUCCESS,
                            Some (calloc_private_jxl\<lparr>data_len := lseek_end f, data := Some a,
                                                     owns_data := 1\<rparr>))))"

section \<open>Sessions, ownership of the input, and concrete instances\<close>

text \<open>
  A run of the JPEG-XL decoder that announces and completes the frames whose filled
  buffers are \<open>pxs\<close>, one after the other, and then goes on with \<open>fin\<close>.
\<close>

fun frames_run :: "byte list list \<Rightarrow> jxl_events \<Rightarrow> jxl_events" where
  "frames_run [] fin = fin"
| "frames_run (px # pxs) fin =
     JXL_DEC_NEED_IMAGE_OUT_BUFFER (Some px) True (JXL_DEC_FULL_IMAGE (frames_run pxs fin))"

text \<open>The statuses that end the loop of \<^verbatim>\<open>first_frame\<close> by themselves.\<close>

fun ends_run :: "jxl_events \<Rightarrow> bool" where
  "ends_run JXL_DEC_SUCCESS = True"
| "ends_run JXL_DEC_ERROR = True"
| "ends_run JXL_DEC_NEED_MORE_INPUT = True"
| "ends_run JXL_DEC_unknown = True"
| "ends_run _ = False"



text \<open>
  The private state once the frames with the filled buffers \<open>pxs\<close> are stored and \<open>r\<close>
  zeroed entries of the array are left: what \<^verbatim>\<open>first_frame\<close> builds from the state \<open>pvt\<close>
  when the decoder reports \<open>info\<close> and then these frames.
\<close>

definition decoded_state :: "private_jxl \<Rightarrow> JxlBasicInfo \<Rightarrow> byte list list \<Rightarrow> nat \<Rightarrow> private_jxl" where
  "decoded_state pvt info pxs r =
     (let pvt_b = (start_decode pvt)\<lparr>width := xsize info, height := ysize info,
                    is_animation := (if have_animation info = JXL_TRUE then 1 else 0)\<rparr>
      in pvt_b\<lparr>frames := Some (map (\<lambda>px. \<lparr>data_frame = Some px, frametime = frametime_jxl pvt_b info\<rparr>) pxs
                               @ replicate r zero_frame),
               nb_frames := int (length pxs),
               nb_allocd_frames := int (length pxs + r)\<rparr>)"

text \<open>
  A caller's session with a JPEG-XL source: \<^verbatim>\<open>load_first_frame\<close>, then \<open>k\<close> times
  \<^verbatim>\<open>load_next_frame\<close>. Only the first call is given the decoder.
\<close>

fun play_jxl :: "jxl_decoder \<Rightarrow> nat \<Rightarrow> private_jxl \<Rightarrow> fault + (private_jxl \<times> imv_image option \<times> int)" where
  "play_jxl jxld 0 pvt = first_frame_jxl jxld pvt"
| "play_jxl jxld (Suc k) pvt =
     (case play_jxl jxld k pvt of
        Inl f \<Rightarrow> Inl f
      | Inr (pvt', _, _) \<Rightarrow> next_frame_jxl pvt')"

text \<open>
  What a source owns of its input: a mapped region (address and length), bytes on the heap,
  an open stream, or nothing (the bytes are the caller's). \<open>teardown_of\<close> is the release
  that goes with each; \<open>input_teardown\<close> keeps, of a list of calls, those that release
  input: an unmapping of a non-null address, a \<^verbatim>\<open>free\<close> of input bytes and the closing of a
  stream (\<^verbatim>\<open>munmap\<close> of a null pointer releases nothing). \<open>ownership_gif\<close>, \<open>ownership_png\<close>
  and \<open>ownership_jxl\<close> read what a source owns from the fields its \<^verbatim>\<open>free_private\<close> looks at;
  none of the three private states has a field for input on the heap.
\<close>

datatype ownership = Mapped addr int | Heap addr | Stream nat | Borrowed

fun teardown_of :: "ownership \<Rightarrow> action list" where
  "teardown_of (Mapped a n) = [Munmap (Some a) n]"
| "teardown_of (Heap a) = [Free_input a]"
| "teardown_of (Stream s) = [Fclose s]"
| "teardown_of Borrowed = []"

fun releases_input :: "action \<Rightarrow> bool" where
  "releases_input (Munmap (Some a) n) = True"
| "releases_input (Fclose s) = True"
| "releases_input (Free_input a) = True"
| "releases_input _ = False"

definition input_teardown :: "action list \<Rightarrow> action list" where
  "input_teardown acts = filter releases_input acts"

definition ownership_gif :: "private_gif \<Rightarrow> ownership" where
  "ownership_gif p = (case data_gif p of Some a \<Rightarrow> Mapped a (len_gif p) | None \<Rightarrow> Borrowed)"

definition ownership_png :: "private_png \<Rightarrow> ownership" where
  "ownership_png p = (case file_png p of Some s \<Rightarrow> Stream s | None \<Rightarrow> Borrowed)"

definition ownership_jxl :: "private_jxl \<Rightarrow> ownership" where
  "ownership_jxl p =
     (if owns_data p \<noteq> 0
      then (case data p of Some a \<Rightarrow> Mapped a (data_len p) | None \<Rightarrow> Borrowed)
      else Borrowed)"

text \<open>
  The three disciplines the specification names, and the teardown it gives each: an
  unmapping for mapped input, a \<^verbatim>\<open>free\<close> for heap input the source owns, no release of
  input for a caller's buffer.
\<close>

datatype discipline = Memory_mapped | Heap_owned | Caller_owned

fun spec_teardown :: "discipline \<Rightarrow> action list \<Rightarrow> bool" where
  "spec_teardown Memory_mapped acts =
     (case input_teardown acts of [Munmap (Some a) n] \<Rightarrow> True | _ \<Rightarrow> False)"
| "spec_teardown Heap_owned acts =
     (case input_teardown acts of [Free_input a] \<Rightarrow> True | _ \<Rightarrow> False)"
| "spec_teardown Caller_owned acts = (input_teardown acts = [])"

text \<open>Concrete instances: an empty file system, small libraries, small decoders.\<close>

definition no_files :: filesystem where
  "no_files = (\<lambda>path. None)"

definition gif3_lib :: nsgif_lib where
  "gif3_lib = \<lparr>nsgif_create = NSGIF_OK,
               nsgif_data_scan = (\<lambda>buf. if take 3 buf = [71, 73, 70] then NSGIF_OK else NSGIF_ERR_DATA),
               nsgif_scanned = (\<lambda>buf. gif3)\<rparr>"

text \<open>A GIF none of whose frames decodes.\<close>

definition gif_corrupt :: nsgif_t where
  "gif_corrupt = gif3\<lparr>nsgif_frame_decode := (\<lambda>i. (NSGIF_ERR_DATA_FRAME, []))\<rparr>"

definition private_gif_corrupt :: private_gif where
  "private_gif_corrupt = \<lparr>current_frame = 2, gif = gif_corrupt, data_gif = None, len_gif = 0\<rparr>"

text \<open>A GIF of 32768 by 32768 pixels with one frame, whose bitmap has \<open>2 ^ 32\<close> bytes.\<close>

definition gif_large :: nsgif_t where
  "gif_large = \<lparr>gif_width = 32768, gif_height = 32768, gif_frame_count = 1,
                nsgif_frame_decode = (\<lambda>i. if i = 0 then (NSGIF_OK, replicate (2 ^ 32) 255)
                                           else (NSGIF_ERR_BAD_FRAME, [])),
                gif_frame_delay = (\<lambda>i. 10)\<rparr>"

definition private_gif_large :: private_gif where
  "private_gif_large = \<lparr>current_frame = 0, gif = gif_large, data_gif = None, len_gif = 0\<rparr>"

text \<open>
  A libpng that accepts a stream beginning with the header of an \<^verbatim>\<open>IHDR\<close> chunk, which it
  reads in one call of 8 bytes, and decodes one opaque white pixel after one more read of
  8 bytes; and one whose \<^verbatim>\<open>png_read_image\<close> jumps back.
\<close>

definition libpng1 :: libpng where
  "libpng1 = \<lparr>png_create_read_struct = True, png_create_info_struct = True,
              png_read_info = (\<lambda>stream. take 8 stream = [0, 0, 0, 13, 73, 72, 68, 82]),
              png_read_info_reads = [8],
              png_get_image_width = 1, png_get_image_height = 1, png_get_rowbytes = 4,
              png_read_image = Some (\<lambda>i. 255),
              png_read_image_reads = [8]\<rparr>"

definition libpng_corrupt :: libpng where
  "libpng_corrupt = libpng1\<lparr>png_read_image := None\<rparr>"

text \<open>The first sixteen bytes of a PNG stream: the signature and the \<^verbatim>\<open>IHDR\<close> header.\<close>

definition png_head :: "byte list" where
  "png_head = [137, 80, 78, 71, 13, 10, 26, 10, 0, 0, 0, 13, 73, 72, 68, 82]"

definition png_file :: os_file where
  "png_file = \<lparr>file_bytes = png_head, lseek_end = 16, mmap_addr = Some 4096,
               fread_error = False, file_stream = 3\<rparr>"

definition gif_file :: os_file where
  "gif_file = \<lparr>file_bytes = [71, 73, 70, 56, 57, 97], lseek_end = 6, mmap_addr = Some 8192,
               fread_error = False, file_stream = 4\<rparr>"

definition jxl_file :: os_file where
  "jxl_file = \<lparr>file_bytes = [255, 10], lseek_end = 2, mmap_addr = Some 12288,
               fread_error = False, file_stream = 5\<rparr>"

definition media_files :: filesystem where
  "media_files =
     (\<lambda>path. if path = ''a.png'' then Some png_file
             else if path = ''a.gif'' then Some gif_file
             else if path = ''a.jxl'' then Some jxl_file
             else None)"

text \<open>The sources the open functions give for these files and for buffers in memory.\<close>

definition private_gif_path :: private_gif where
  "private_gif_path = \<lparr>current_frame = 0, gif = gif3, data_gif = Some 8192, len_gif = 6\<rparr>"

definition private_png_memory :: private_png where
  "private_png_memory = \<lparr>file_png = None, data_png = Some 4104, len_png = 8, pos = 8, png = True\<rparr>"

definition private_png_path :: private_png where
  "private_png_path = \<lparr>file_png = Some 3, data_png = None, len_png = 0, pos = 0, png = True\<rparr>"

definition jxl_sig :: "byte list \<Rightarrow> JxlSignature" where
  "jxl_sig buf =
     (if length buf < 2 then JXL_SIG_NOT_ENOUGH_BYTES
      else if take 2 buf = [255, 10] then JXL_SIG_CODESTREAM
      else JXL_SIG_INVALID)"

definition private_jxl_memory :: private_jxl where
  "private_jxl_memory = calloc_private_jxl\<lparr>owns_data := 0, data := Some 4096, data_len := 2\<rparr>"

definition private_jxl_path :: private_jxl where
  "private_jxl_path = calloc_private_jxl\<lparr>data_len := 2, data := Some 12288, owns_data := 1\<rparr>"

definition info_still :: "32 word \<Rightarrow> 32 word \<Rightarrow> JxlBasicInfo" where
  "info_still w h = \<lparr>xsize = w, ysize = h, have_animation = 0, tps_numerator = 0, tps_denominator = 0\<rparr>"

definition info_animation :: "32 word \<Rightarrow> 32 word \<Rightarrow> JxlBasicInfo" where
  "info_animation n d = \<lparr>xsize = 1, ysize = 1, have_animation = 1, tps_numerator = n, tps_denominator = d\<rparr>"

text \<open>
  A decoder that reports an image of one pixel and then an error; one that decodes a
  single frame of 32768 by 32768 pixels; one that decodes an animation of three frames
  of one pixel at 10 ticks a second.
\<close>

definition jxld_error :: jxl_decoder where
  "jxld_error = \<lparr>subscribe_events = True, set_input = True, stack_info = info_still 0 0,
                 process_input = JXL_DEC_BASIC_INFO (Some (info_still 1 1)) JXL_DEC_ERROR\<rparr>"

definition jxld_large :: jxl_decoder where
  "jxld_large = \<lparr>subscribe_events = True, set_input = True, stack_info = info_still 0 0,
                 process_input =
                   JXL_DEC_BASIC_INFO (Some (info_still 32768 32768))
                     (frames_run [replicate (2 ^ 32) 255] JXL_DEC_SUCCESS)\<rparr>"

definition jxld_animation :: jxl_decoder where
  "jxld_animation = \<lparr>subscribe_events = True, set_input = True, stack_info = info_still 0 0,
                     process_input =
                       JXL_DEC_BASIC_INFO (Some (info_animation 10 1))
                         (frames_run [[0, 0, 0, 255], [1, 0, 0, 255], [2, 0, 0, 255]] JXL_DEC_SUCCESS)\<rparr>"

text \<open>
  A decoder of an animation whose tick rate has the numerator 0 and whose run ends in an
  error after one frame; and one of a still image of one pixel.
\<close>

definition jxld_default_rate :: jxl_decoder where
  "jxld_default_rate = \<lparr>subscribe_events = True, set_input = True, stack_info = info_still 0 0,
                        process_input =
                          JXL_DEC_BASIC_INFO (Some (info_animation 0 1))
                            (frames_run [[0, 0, 0, 255]] JXL_DEC_ERROR)\<rparr>"

definition jxld_still :: jxl_decoder where
  "jxld_still = \<lparr>subscribe_events = True, set_input = True, stack_info = info_still 0 0,
                 process_input =
                   JXL_DEC_BASIC_INFO (Some (info_still 1 1))
                     (frames_run [[0, 0, 0, 255]] JXL_DEC_SUCCESS)\<rparr>"

section \<open>Properties of the GIF backend\<close>

lemma first_frame_gif_load: "first_frame_gif p = load_frame_gif p 0"
  by (simp add: first_frame_gif_def load_frame_gif_def)

lemma next_frame_gif_load:
  "gif_frame_count (gif p) \<noteq> 0 \<Longrightarrow>
   next_frame_gif p = load_frame_gif p ((current_frame p + 1) mod gif_frame_count (gif p))"
  by (simp add: next_frame_gif_def load_frame_gif_def)

lemma word_step:
  fixes N :: "32 word"
  assumes "m < unat N"
  shows "(of_nat m + 1) mod N = of_nat (Suc m mod unat N)"
proof -
  have e: "(of_nat m :: 32 word) + 1 = of_nat (Suc m)" by simp
  have s: "unat (of_nat (Suc m) :: 32 word) = Suc m"
    using assms by (intro le_unat_uoi [of _ N]) simp
  have "unat ((of_nat m + 1) mod N) = unat (of_nat (Suc m) :: 32 word) mod unat N"
    by (simp only: e unat_mod)
  then have "unat ((of_nat m + 1) mod N) = Suc m mod unat N"
    by (simp only: s)
  moreover have "unat (of_nat (Suc m mod unat N) :: 32 word) = Suc m mod unat N"
    by (intro le_unat_uoi [of _ N]) (use assms in simp)
  ultimately show ?thesis by (simp add: word_unat_eq_iff)
qed

lemma load_frame_gif_state:
  "load_frame_gif p i = Inr (q, out) \<Longrightarrow> q = p\<lparr>current_frame := i\<rparr>"
  by (auto simp: load_frame_gif_def Let_def split: prod.splits if_splits sum.splits)

lemma load_frame_gif_index:
  "load_frame_gif (p\<lparr>current_frame := c\<rparr>) i = load_frame_gif p i"
  by (simp add: load_frame_gif_def push_current_image_def)

lemma play_gif_load:
  assumes N: "gif_frame_count (gif p) \<noteq> 0"
    and ok: "\<forall>i < unat (gif_frame_count (gif p)). \<forall>f. load_frame_gif p (of_nat i) \<noteq> Inl f"
  shows "play_gif k p = load_frame_gif p (of_nat (k mod unat (gif_frame_count (gif p))))"
proof (induction k)
  case 0
  show ?case by (simp add: first_frame_gif_load)
next
  case (Suc k)
  let ?N = "gif_frame_count (gif p)"
  let ?m = "k mod unat ?N"
  have pos: "0 < unat ?N" using N by (simp add: unat_gt_0)
  then have m: "?m < unat ?N" by simp
  with ok have "\<forall>f. load_frame_gif p (of_nat ?m) \<noteq> Inl f" by blast
  then obtain q img ft where q: "load_frame_gif p (of_nat ?m) = Inr (q, img, ft)"
    by (cases "load_frame_gif p (of_nat ?m)") auto
  then have qp: "q = p\<lparr>current_frame := of_nat ?m\<rparr>" by (rule load_frame_gif_state)
  have "play_gif (Suc k) p = next_frame_gif q" using Suc.IH q by simp
  also have "\<dots> = load_frame_gif q ((of_nat ?m + 1) mod ?N)"
    using N qp by (simp add: next_frame_gif_load)
  also have "\<dots> = load_frame_gif p ((of_nat ?m + 1) mod ?N)"
    using qp by (simp add: load_frame_gif_index)
  also have "(of_nat ?m + 1) mod ?N = of_nat (Suc ?m mod unat ?N)"
    using m by (rule word_step)
  also have "Suc ?m mod unat ?N = Suc k mod unat ?N" by (simp add: mod_Suc_eq)
  finally show ?case .
qed

text \<open>
  Claim C5. For the GIF backend, \<^verbatim>\<open>load_next_frame\<close> advances the current frame index by one
  modulo the frame count known since the open: on a GIF of \<open>N\<close> frames (\<open>N\<close> not 0, and no
  frame whose copy faults), the \<open>k\<close>-th \<^verbatim>\<open>load_next_frame\<close> after \<^verbatim>\<open>load_first_frame\<close> gives
  what loading frame \<open>k mod N\<close> gives and leaves the index at \<open>k mod N\<close>; \<open>N\<close> calls later the
  result is the same again, and after exactly \<open>N\<close> calls it is the result of
  \<^verbatim>\<open>load_first_frame\<close>, pixel buffer and frametime included.
\<close>

theorem gif_next_frame_wraps:
  assumes "gif_frame_count (gif p) \<noteq> 0"
    and "\<forall>i < unat (gif_frame_count (gif p)). \<forall>f. load_frame_gif p (of_nat i) \<noteq> Inl f"
  shows "play_gif k p = load_frame_gif p (of_nat (k mod unat (gif_frame_count (gif p))))
       \<and> (\<exists>img ft. play_gif k p =
             Inr (p\<lparr>current_frame := of_nat (k mod unat (gif_frame_count (gif p)))\<rparr>, img, ft))
       \<and> play_gif (k + unat (gif_frame_count (gif p))) p = play_gif k p
       \<and> play_gif (unat (gif_frame_count (gif p))) p = first_frame_gif p"
proof -
  let ?n = "unat (gif_frame_count (gif p))"
  have pos: "0 < ?n" using assms(1) by (simp add: unat_gt_0)
  have a: "play_gif k p = load_frame_gif p (of_nat (k mod ?n))" for k
    using assms by (rule play_gif_load)
  have "k mod ?n < ?n" using pos by simp
  with assms(2) have "\<forall>f. load_frame_gif p (of_nat (k mod ?n)) \<noteq> Inl f" by blast
  then obtain q img ft where q: "load_frame_gif p (of_nat (k mod ?n)) = Inr (q, img, ft)"
    by (cases "load_frame_gif p (of_nat (k mod ?n))") auto
  then have "q = p\<lparr>current_frame := of_nat (k mod ?n)\<rparr>" by (rule load_frame_gif_state)
  with q a have b: "\<exists>img ft. play_gif k p = Inr (p\<lparr>current_frame := of_nat (k mod ?n)\<rparr>, img, ft)"
    by simp
  have c: "play_gif (k + ?n) p = play_gif k p" by (simp add: a)
  have d: "play_gif ?n p = first_frame_gif p" by (simp add: a first_frame_gif_load)
  from a b c d show ?thesis by blast
qed

text \<open>
  The three-frame GIF: the calls after the first give the frames 1, 2 and 0, each with
  100 ms.
\<close>

theorem gif_next_frame_wraps_witness:
  "play_gif 1 private_gif3 =
     Inr (private_gif3\<lparr>current_frame := 1\<rparr>,
          Some (Image \<lparr>bmp_width = 1, bmp_height = 1, bmp_format = IMV_ABGR, bmp_data = [1, 0, 0, 255]\<rparr>), 100)
   \<and> play_gif 2 private_gif3 =
     Inr (private_gif3\<lparr>current_frame := 2\<rparr>,
          Some (Image \<lparr>bmp_width = 1, bmp_height = 1, bmp_format = IMV_ABGR, bmp_data = [2, 0, 0, 255]\<rparr>), 100)
   \<and> play_gif 3 private_gif3 =
     Inr (private_gif3\<lparr>current_frame := 0\<rparr>,
          Some (Image \<lparr>bmp_width = 1, bmp_height = 1, bmp_format = IMV_ABGR, bmp_data = [0, 0, 0, 255]\<rparr>), 100)
   \<and> play_gif 3 private_gif3 = first_frame_gif private_gif3"
proof -
  have n: "unat (gif_frame_count (gif private_gif3)) = 3" "gif_frame_count (gif private_gif3) \<noteq> 0"
    by (simp_all add: private_gif3_def gif3_def)
  have f: "load_frame_gif private_gif3 (of_nat i) =
      Inr (private_gif3\<lparr>current_frame := of_nat i\<rparr>,
          Some (Image \<lparr>bmp_width = 1, bmp_height = 1, bmp_format = IMV_ABGR, bmp_data = [of_nat i, 0, 0, 255]\<rparr>), 100)"
    if "i < 3" for i
  proof -
    from that have "i = 0 \<or> i = 1 \<or> i = 2" by arith
    then show ?thesis
      by (auto simp: load_frame_gif_def private_gif3_def gif3_def push_current_image_def
          memcpy_def size_t_of_int_def)
  qed
  have ok: "\<forall>i < unat (gif_frame_count (gif private_gif3)). \<forall>f. load_frame_gif private_gif3 (of_nat i) \<noteq> Inl f"
    using f n by simp
  note w = gif_next_frame_wraps [OF n(2) ok]
  show ?thesis
    using w [of 1] w [of 2] w [of 3] f [of 0] f [of 1] f [of 2] n
    by simp
qed

lemma first_frame_gif_state:
  "first_frame_gif p = Inr (q, out) \<Longrightarrow> q = p\<lparr>current_frame := 0\<rparr>"
  by (auto simp: first_frame_gif_def Let_def split: prod.splits if_splits sum.splits)

lemma next_frame_gif_state:
  "next_frame_gif p = Inr (q, out) \<Longrightarrow>
   q = p\<lparr>current_frame := (current_frame p + 1) mod gif_frame_count (gif p)\<rparr>"
  by (auto simp: next_frame_gif_def Let_def split: prod.splits if_splits sum.splits)

lemma first_frame_gif_index:
  "first_frame_gif (p\<lparr>current_frame := c\<rparr>) = first_frame_gif p"
  by (simp add: first_frame_gif_def push_current_image_def)

lemma play_gif_state:
  "play_gif k p = Inr (q, out) \<Longrightarrow> \<exists>c. q = p\<lparr>current_frame := c\<rparr>"
proof (induction k arbitrary: q out)
  case 0
  then show ?case using first_frame_gif_state [of p q out] by auto
next
  case (Suc k)
  from Suc.prems obtain q' out' where q': "play_gif k p = Inr (q', out')" and n: "next_frame_gif q' = Inr (q, out)"
    by (auto split: sum.splits)
  from Suc.IH [OF q'] obtain c where c: "q' = p\<lparr>current_frame := c\<rparr>" by blast
  from next_frame_gif_state [OF n] c show ?case by auto
qed

text \<open>
  Claim C10. For the GIF backend, every \<^verbatim>\<open>load_first_frame\<close> sets the current frame index
  to 0 before it decodes: its result does not depend on the index stored before; after any
  number of \<^verbatim>\<open>load_next_frame\<close> calls it gives what it gave at the start; the state it
  returns has index 0; and when the decode of frame 0 fails it returns the null image,
  frametime 0 and the state with index 0.
\<close>

theorem first_frame_gif_restarts:
  "first_frame_gif (p\<lparr>current_frame := c\<rparr>) = first_frame_gif p
   \<and> (play_gif k p = Inr (q, out) \<longrightarrow> first_frame_gif q = first_frame_gif p)
   \<and> (first_frame_gif p = Inr (p', img, ft) \<longrightarrow> current_frame p' = 0)
   \<and> (fst (nsgif_frame_decode (gif p) 0) \<noteq> NSGIF_OK \<longrightarrow>
        first_frame_gif p = Inr (p\<lparr>current_frame := 0\<rparr>, None, 0))"
proof (intro conjI impI)
  show "first_frame_gif (p\<lparr>current_frame := c\<rparr>) = first_frame_gif p"
    by (rule first_frame_gif_index)
next
  assume "play_gif k p = Inr (q, out)"
  then obtain c' where "q = p\<lparr>current_frame := c'\<rparr>" using play_gif_state by blast
  then show "first_frame_gif q = first_frame_gif p" by (simp add: first_frame_gif_index)
next
  assume "first_frame_gif p = Inr (p', img, ft)"
  then have "p' = p\<lparr>current_frame := 0\<rparr>" by (rule first_frame_gif_state)
  then show "current_frame p' = 0" by simp
next
  assume "fst (nsgif_frame_decode (gif p) 0) \<noteq> NSGIF_OK"
  then show "first_frame_gif p = Inr (p\<lparr>current_frame := 0\<rparr>, None, 0)"
    by (auto simp: first_frame_gif_def Let_def split: prod.splits)
qed

text \<open>
  The three-frame GIF after one \<^verbatim>\<open>load_next_frame\<close>, and the GIF whose frames do not decode.
\<close>

theorem first_frame_gif_restarts_witness:
  "first_frame_gif (private_gif3\<lparr>current_frame := 1\<rparr>) =
     Inr (private_gif3,
          Some (Image \<lparr>bmp_width = 1, bmp_height = 1, bmp_format = IMV_ABGR, bmp_data = [0, 0, 0, 255]\<rparr>), 100)
   \<and> first_frame_gif private_gif_corrupt = Inr (private_gif_corrupt\<lparr>current_frame := 0\<rparr>, None, 0)"
proof -
  let ?img1 = "Some (Image \<lparr>bmp_width = 1, bmp_height = 1, bmp_format = IMV_ABGR, bmp_data = [1, 0, 0, 255]\<rparr>)"
  let ?img0 = "Some (Image \<lparr>bmp_width = 1, bmp_height = 1, bmp_format = IMV_ABGR, bmp_data = [0, 0, 0, 255]\<rparr>)"
  have f0: "first_frame_gif private_gif3 = Inr (private_gif3, ?img0, 100)"
    by (simp add: first_frame_gif_def private_gif3_def gif3_def
      push_current_image_def memcpy_def size_t_of_int_def)
  have n1: "next_frame_gif private_gif3 = Inr (private_gif3\<lparr>current_frame := 1\<rparr>, ?img1, 100)"
    by (simp add: next_frame_gif_def private_gif3_def gif3_def
      push_current_image_def memcpy_def size_t_of_int_def)
  have p1: "play_gif 1 private_gif3 = Inr (private_gif3\<lparr>current_frame := 1\<rparr>, ?img1, 100)"
    by (simp add: f0 n1)
  have bad: "fst (nsgif_frame_decode (gif private_gif_corrupt) 0) \<noteq> NSGIF_OK"
    by (simp add: private_gif_corrupt_def gif_corrupt_def)
  from first_frame_gif_restarts [where p = private_gif3 and c = 1 and k = 1
        and q = "private_gif3\<lparr>current_frame := 1\<rparr>" and out = "(?img1, 100)"
        and p' = private_gif3 and img = "?img0" and ft = 100]
    first_frame_gif_restarts [where p = private_gif_corrupt and c = 0 and k = 0
        and q = "private_gif_corrupt\<lparr>current_frame := 0\<rparr>" and out = "(None, 0)"
        and p' = "private_gif_corrupt\<lparr>current_frame := 0\<rparr>" and img = None and ft = 0]
    p1 f0 bad
  show ?thesis by simp
qed


section \<open>Opening a source\<close>

text \<open>
  Claim C2. For every backend and every path at which no file can be opened,
  \<^verbatim>\<open>open_path\<close> returns \<^verbatim>\<open>BACKEND_BAD_PATH\<close> and makes no source.
\<close>

theorem open_path_missing_file:
  assumes "fs path = None"
  shows "open_path_gif glib fs path = (BACKEND_BAD_PATH, None)
       \<and> open_path_png plib fs path = (BACKEND_BAD_PATH, None)
       \<and> open_path_jxl JxlSignatureCheck fs path = (BACKEND_BAD_PATH, None)"
  using assms by (simp add: open_path_gif_def open_path_png_def open_path_jxl_def)

text \<open>
  On the empty file system all three backends answer \<^verbatim>\<open>BACKEND_BAD_PATH\<close>.
\<close>

theorem open_path_missing_file_witness:
  "open_path_gif gif3_lib no_files ''missing.gif'' = (BACKEND_BAD_PATH, None)
   \<and> open_path_png libpng1 no_files ''missing.gif'' = (BACKEND_BAD_PATH, None)
   \<and> open_path_jxl jxl_sig no_files ''missing.gif'' = (BACKEND_BAD_PATH, None)"
  using open_path_missing_file [of no_files "''missing.gif''" gif3_lib libpng1 jxl_sig]
  by (simp add: no_files_def)

text \<open>
  Where \<^verbatim>\<open>open_memory\<close> does reject: the GIF backend when the scan of the buffer fails, the
  JPEG-XL backend when the signature check answers \<^verbatim>\<open>JXL_SIG_NOT_ENOUGH_BYTES\<close> or
  \<^verbatim>\<open>JXL_SIG_INVALID\<close>, the PNG backend when the buffer has at least \<^verbatim>\<open>SIG_SIZE\<close> bytes
  and they are not the signature.
\<close>

lemma open_memory_rejects_mismatch:
  "(nsgif_data_scan glib buf \<noteq> NSGIF_OK \<longrightarrow> open_memory_gif glib buf = (BACKEND_UNSUPPORTED, None))
   \<and> (JxlSignatureCheck buf = JXL_SIG_NOT_ENOUGH_BYTES \<or> JxlSignatureCheck buf = JXL_SIG_INVALID \<longrightarrow>
        open_memory_jxl JxlSignatureCheck a buf = (BACKEND_UNSUPPORTED, None))
   \<and> (SIG_SIZE \<le> len \<and> len \<le> length mem \<and> take SIG_SIZE (take len mem) \<noteq> png_signature \<longrightarrow>
        open_memory_png plib a mem len = Inr (BACKEND_UNSUPPORTED, None))"
  by (auto simp: open_memory_gif_def open_memory_jxl_def open_memory_png_def png_sig_cmp_def
      SIG_SIZE_def png_signature_def)

text \<open>
  Claim C1. \<^verbatim>\<open>open_memory\<close> on a buffer whose bytes do not match the codec's signature
  returns \<^verbatim>\<open>BACKEND_UNSUPPORTED\<close>. The PNG backend does not for a buffer shorter than the
  signature: it compares \<^verbatim>\<open>SIG_SIZE\<close> bytes whatever the length it is given. Here the
  buffer is the first 4 bytes of a PNG stream that goes on in memory; the 4 bytes are not
  the signature, and the source is opened, with a remaining length of \<open>4 - 8\<close> wrapped
  to \<open>2 ^ 64 - 4\<close>. When the object ends with the buffer, the comparison reads past its
  end.
\<close>

theorem open_memory_png_truncated_buffer:
  "png_sig_cmp (take 4 png_head) 0 SIG_SIZE
   \<and> open_memory_png libpng1 4096 png_head 4 =
       Inr (BACKEND_SUCCESS,
            Some \<lparr>file_png = None, data_png = Some 4104, len_png = 18446744073709551612,
                  pos = 8, png = True\<rparr>)
   \<and> open_memory_png libpng1 4096 (take 4 png_head) 4 = Inl OutOfBounds"
  by (simp add: open_memory_png_def libpng1_def png_head_def SIG_SIZE_def png_sig_cmp_def
      png_signature_def init_private_def setup_png_def read_memory_def memcpy_def)

section \<open>Decode failures\<close>














text \<open>
  Claim C4. After a \<^verbatim>\<open>load_first_frame\<close> that failed, \<^verbatim>\<open>load_next_frame\<close> at worst returns a
  null image again. The JPEG-XL backend does not: when the decoder reports a 1 by 1 image
  and then an error, no frame is stored, \<^verbatim>\<open>first_frame\<close> returns the null image, and
  \<^verbatim>\<open>next_frame\<close> then advances the index to 1 and copies 4 bytes from the null data pointer
  of that entry.
\<close>

theorem next_frame_jxl_after_failed_first_frame:
  "(case first_frame_jxl jxld_error private_jxl_memory of
      Inl f \<Rightarrow> False
    | Inr (pvt, img, ft) \<Rightarrow> img = None \<and> ft = 0 \<and> next_frame_jxl pvt = Inl NullDeref)"
  by (simp add: first_frame_jxl_def jxld_error_def start_decode_def private_jxl_memory_def
      calloc_private_jxl_def info_still_def JXL_TRUE_def BACKEND_NB_ALLOC_FRAMES_def
      next_frame_jxl_def push_frame_def frame_at_def memcpy_def size_t_of_int_def
      BACKEND_NB_CHANNELS_def zero_frame_def)

section \<open>The frame list of the JPEG-XL backend\<close>

lemma frametime_jxl_frames [simp]:
  "frametime_jxl (pvt\<lparr>frames := fs\<rparr>) info = frametime_jxl pvt info"
  "frametime_jxl (pvt\<lparr>nb_frames := n\<rparr>) info = frametime_jxl pvt info"
  "frametime_jxl (pvt\<lparr>nb_allocd_frames := m\<rparr>) info = frametime_jxl pvt info"
  "frametime_jxl (pvt\<lparr>cur_frame := c\<rparr>) info = frametime_jxl pvt info"
  by (simp_all add: frametime_jxl_def)

text \<open>
  The loop over announced and completed frames: it stores one entry per frame, in order,
  behind the entries already there, and goes on with the rest of the run. \<open>r\<close> counts the
  zeroed entries not yet used.
\<close>

lemma decode_loop_frames_run:
  assumes "frames pvt = Some (fs @ replicate r zero_frame)"
    and "nb_frames pvt = int (length fs)"
    and "nb_allocd_frames pvt = int (length fs + r)"
  shows "\<exists>r'. decode_loop pvt info (frames_run pxs fin) =
           decode_loop
             (pvt\<lparr>frames := Some (fs @ map (\<lambda>px. \<lparr>data_frame = Some px, frametime = frametime_jxl pvt info\<rparr>) pxs
                                    @ replicate r' zero_frame),
                  nb_frames := int (length fs + length pxs),
                  nb_allocd_frames := int (length fs + length pxs + r')\<rparr>)
             info fin"
  using assms
proof (induction pxs arbitrary: pvt fs r)
  case Nil
  have "pvt\<lparr>frames := Some (fs @ replicate r zero_frame), nb_frames := int (length fs),
             nb_allocd_frames := int (length fs + r)\<rparr> = pvt"
    using Nil by simp
  then show ?case by (intro exI [of _ r]) simp
next
  case (Cons px pxs)
  let ?fr = "\<lparr>data_frame = Some px, frametime = frametime_jxl pvt info\<rparr>"
  define r1 where "r1 = (if r = 0 then BACKEND_NB_ALLOC_FRAMES else r)"
  define pvt1 where "pvt1 = (if nb_frames pvt = nb_allocd_frames pvt then grow_frames pvt else pvt)"
  have r1: "0 < r1" by (simp add: r1_def BACKEND_NB_ALLOC_FRAMES_def)
  have full: "nb_frames pvt = nb_allocd_frames pvt \<longleftrightarrow> r = 0"
    using Cons.prems by simp
  have f1: "frames pvt1 = Some (fs @ replicate r1 zero_frame)"
    and n1: "nb_frames pvt1 = int (length fs)"
    and a1: "nb_allocd_frames pvt1 = int (length fs + r1)"
    and t1: "frametime_jxl pvt1 info = frametime_jxl pvt info"
    using Cons.prems full by (auto simp: pvt1_def r1_def grow_frames_def frametime_jxl_def)
  define pvt2 where "pvt2 = pvt1\<lparr>frames := Some ((fs @ replicate r1 zero_frame)[length fs := ?fr])\<rparr>"
  define pvt3 where "pvt3 = pvt2\<lparr>nb_frames := nb_frames pvt2 + 1\<rparr>"
  have upd: "(fs @ replicate r1 zero_frame)[length fs := ?fr] = (fs @ [?fr]) @ replicate (r1 - 1) zero_frame"
    using r1 by (cases r1) (simp_all add: list_update_append)
  have step: "decode_loop pvt info (frames_run (px # pxs) fin) = decode_loop pvt3 info (frames_run pxs fin)"
    using f1 n1 r1 t1 by (simp add: pvt1_def [symmetric] pvt2_def pvt3_def Let_def)
  have "frames pvt3 = Some ((fs @ [?fr]) @ replicate (r1 - 1) zero_frame)"
    and "nb_frames pvt3 = int (length (fs @ [?fr]))"
    and "nb_allocd_frames pvt3 = int (length (fs @ [?fr]) + (r1 - 1))"
    using n1 a1 r1 upd by (simp_all add: pvt3_def pvt2_def)
  from Cons.IH [OF this] obtain r' where ih:
    "decode_loop pvt3 info (frames_run pxs fin) =
       decode_loop
         (pvt3\<lparr>frames := Some ((fs @ [?fr]) @ map (\<lambda>px. \<lparr>data_frame = Some px, frametime = frametime_jxl pvt3 info\<rparr>) pxs
                                @ replicate r' zero_frame),
               nb_frames := int (length (fs @ [?fr]) + length pxs),
               nb_allocd_frames := int (length (fs @ [?fr]) + length pxs + r')\<rparr>)
         info fin"
    by blast
  have t3: "frametime_jxl pvt3 info = frametime_jxl pvt info"
    using t1 by (simp add: pvt3_def pvt2_def)
  have same: "pvt3\<lparr>frames := F, nb_frames := N, nb_allocd_frames := A\<rparr> =
              pvt\<lparr>frames := F, nb_frames := N, nb_allocd_frames := A\<rparr>" for F N A
    by (simp add: pvt3_def pvt2_def pvt1_def grow_frames_def)
  show ?case
    unfolding step ih t3 same
    by (intro exI [of _ r']) simp
qed

lemma decode_loop_run:
  assumes "ends_run fin"
  shows "\<exists>r. decode_loop (start_decode pvt) info0 (JXL_DEC_BASIC_INFO (Some info) (frames_run pxs fin)) =
           Inr (decoded_state pvt info pxs r, fin = JXL_DEC_SUCCESS)"
proof -
  define pvt_b where "pvt_b = (start_decode pvt)\<lparr>width := xsize info, height := ysize info,
                    is_animation := (if have_animation info = JXL_TRUE then 1 else 0)\<rparr>"
  have "frames pvt_b = Some ([] @ replicate BACKEND_NB_ALLOC_FRAMES zero_frame)"
    and "nb_frames pvt_b = int (length ([] :: jxl_frame list))"
    and "nb_allocd_frames pvt_b = int (length ([] :: jxl_frame list) + BACKEND_NB_ALLOC_FRAMES)"
    by (simp_all add: pvt_b_def start_decode_def)
  from decode_loop_frames_run [OF this, of info pxs fin] obtain r where
    "decode_loop pvt_b info (frames_run pxs fin) = decode_loop (decoded_state pvt info pxs r) info fin"
    by (auto simp: decoded_state_def pvt_b_def Let_def)
  moreover have "decode_loop s info fin = Inr (s, fin = JXL_DEC_SUCCESS)" for s
    using assms by (cases fin) simp_all
  ultimately show ?thesis
    by (intro exI [of _ r]) (simp add: pvt_b_def)
qed

lemma decoded_state_fields:
  "nb_frames (decoded_state pvt info pxs r) = int (length pxs)"
  "cur_frame (decoded_state pvt info pxs r) = 0"
  "width (decoded_state pvt info pxs r) = xsize info"
  "height (decoded_state pvt info pxs r) = ysize info"
  "is_animation (decoded_state pvt info pxs r) = (if have_animation info = JXL_TRUE then 1 else 0)"
  "data (decoded_state pvt info pxs r) = data pvt"
  "data_len (decoded_state pvt info pxs r) = data_len pvt"
  "owns_data (decoded_state pvt info pxs r) = owns_data pvt"
  by (simp_all add: decoded_state_def Let_def start_decode_def)

lemma decoded_state_frame:
  assumes "i < length pxs"
  shows "frame_at (frames (decoded_state pvt info pxs r)) (int i) =
           Inr \<lparr>data_frame = Some (pxs ! i),
                frametime = frametime_jxl (decoded_state pvt info pxs r) info\<rparr>"
  using assms
  by (simp add: decoded_state_def Let_def frame_at_def nth_append frametime_jxl_def start_decode_def)

lemma push_frame_decoded:
  assumes "i < length pxs"
    and "size_t_of_int (xsize info * ysize info * BACKEND_NB_CHANNELS) \<le> length (pxs ! i)"
  shows "push_frame ((decoded_state pvt info pxs r)\<lparr>cur_frame := int i\<rparr>) =
           Inr (Image \<lparr>bmp_width = sint (xsize info), bmp_height = sint (ysize info),
                       bmp_format = IMV_ABGR,
                       bmp_data = take (size_t_of_int (xsize info * ysize info * BACKEND_NB_CHANNELS)) (pxs ! i)\<rparr>,
                frametime_jxl (decoded_state pvt info pxs r) info)"
  using assms decoded_state_frame [OF assms(1), of pvt info r]
  by (auto simp: push_frame_def decoded_state_fields memcpy_def Let_def)

lemma advance_index:
  assumes "0 < n"
  shows "(if int (k mod n) = int n - 1 then 0 else int (k mod n) + 1) = int (Suc k mod n)"
proof -
  have "k mod n < n" using assms by simp
  then show ?thesis by (auto simp: mod_Suc)
qed

lemma cur_frame_decoded [simp]:
  "(decoded_state pvt info pxs r)\<lparr>cur_frame := 0\<rparr> = decoded_state pvt info pxs r"
  by (simp add: decoded_state_def Let_def start_decode_def)

lemma play_jxl_decoded:
  assumes sub: "subscribe_events jxld" "set_input jxld"
    and run: "decode_loop (start_decode pvt) (stack_info jxld) (process_input jxld) =
                Inr (decoded_state pvt info pxs r, True)"
    and ne: "pxs \<noteq> []"
    and sz: "\<forall>px \<in> set pxs. size_t_of_int (xsize info * ysize info * BACKEND_NB_CHANNELS) \<le> length px"
  shows "play_jxl jxld k pvt =
           Inr ((decoded_state pvt info pxs r)\<lparr>cur_frame := int (k mod length pxs)\<rparr>,
                Some (Image \<lparr>bmp_width = sint (xsize info), bmp_height = sint (ysize info),
                             bmp_format = IMV_ABGR,
                             bmp_data = take (size_t_of_int (xsize info * ysize info * BACKEND_NB_CHANNELS))
                                          (pxs ! (k mod length pxs))\<rparr>),
                frametime_jxl (decoded_state pvt info pxs r) info)"
proof (induction k)
  case 0
  have "0 < length pxs" using ne by simp
  moreover have "size_t_of_int (xsize info * ysize info * BACKEND_NB_CHANNELS) \<le> length (pxs ! 0)"
    using sz ne by (simp add: nth_mem)
  ultimately have "push_frame ((decoded_state pvt info pxs r)\<lparr>cur_frame := int 0\<rparr>) =
           Inr (Image \<lparr>bmp_width = sint (xsize info), bmp_height = sint (ysize info),
                       bmp_format = IMV_ABGR,
                       bmp_data = take (size_t_of_int (xsize info * ysize info * BACKEND_NB_CHANNELS)) (pxs ! 0)\<rparr>,
                frametime_jxl (decoded_state pvt info pxs r) info)"
    by (rule push_frame_decoded)
  then show ?case using sub run by (simp add: first_frame_jxl_def)
next
  case (Suc k)
  let ?n = "length pxs"
  let ?S = "decoded_state pvt info pxs r"
  have pos: "0 < ?n" using ne by simp
  have lt: "Suc k mod ?n < ?n" using pos by simp
  then have "pxs ! (Suc k mod ?n) \<in> set pxs" by (rule nth_mem)
  with sz have len: "size_t_of_int (xsize info * ysize info * BACKEND_NB_CHANNELS) \<le> length (pxs ! (Suc k mod ?n))"
    by blast
  have adv: "(if cur_frame (?S\<lparr>cur_frame := int (k mod ?n)\<rparr>) = nb_frames (?S\<lparr>cur_frame := int (k mod ?n)\<rparr>) - 1
              then ?S\<lparr>cur_frame := int (k mod ?n)\<rparr>\<lparr>cur_frame := 0\<rparr>
              else ?S\<lparr>cur_frame := int (k mod ?n)\<rparr>\<lparr>cur_frame := cur_frame (?S\<lparr>cur_frame := int (k mod ?n)\<rparr>) + 1\<rparr>)
             = ?S\<lparr>cur_frame := int (Suc k mod ?n)\<rparr>"
    using advance_index [OF pos, of k] by (auto simp: decoded_state_fields split: if_splits)
  have "play_jxl jxld (Suc k) pvt = next_frame_jxl (?S\<lparr>cur_frame := int (k mod ?n)\<rparr>)"
    using Suc.IH by simp
  also have "\<dots> = Inr (?S\<lparr>cur_frame := int (Suc k mod ?n)\<rparr>,
                Some (Image \<lparr>bmp_width = sint (xsize info), bmp_height = sint (ysize info),
                             bmp_format = IMV_ABGR,
                             bmp_data = take (size_t_of_int (xsize info * ysize info * BACKEND_NB_CHANNELS))
                                          (pxs ! (Suc k mod ?n))\<rparr>),
                frametime_jxl ?S info)"
    unfolding next_frame_jxl_def Let_def adv
    by (simp add: push_frame_decoded [OF lt len])
  finally show ?case .
qed

text \<open>
  Claim C6. For the JPEG-XL backend, \<^verbatim>\<open>load_first_frame\<close> drives the decoder and stores every
  frame: on a run that reports the basic info and then the frames \<open>pxs\<close> (at least one, each
  buffer as long as \<^verbatim>\<open>push_frame\<close> copies), the state it leaves counts \<open>length pxs\<close> frames
  and holds each buffer at its index. Every later \<^verbatim>\<open>load_next_frame\<close> is a function of that
  state alone: it sets the index to 0 when it equals \<^verbatim>\<open>nb_frames - 1\<close> and adds one
  otherwise, then copies the stored frame; so the \<open>k\<close>-th call after the first yields the
  stored frame \<open>k mod length pxs\<close>.
\<close>

theorem jxl_first_frame_decodes_all:
  assumes "subscribe_events jxld" and "set_input jxld"
    and "process_input jxld = JXL_DEC_BASIC_INFO (Some info) (frames_run pxs JXL_DEC_SUCCESS)"
    and "pxs \<noteq> []"
    and "\<forall>px \<in> set pxs. size_t_of_int (xsize info * ysize info * BACKEND_NB_CHANNELS) \<le> length px"
  shows "\<exists>pvt'.
           nb_frames pvt' = int (length pxs)
         \<and> is_animation pvt' = (if have_animation info = JXL_TRUE then 1 else 0)
         \<and> (\<forall>i < length pxs. \<exists>fr. frame_at (frames pvt') (int i) = Inr fr \<and> data_frame fr = Some (pxs ! i))
         \<and> (\<forall>k. play_jxl jxld k pvt =
                 Inr (pvt'\<lparr>cur_frame := int (k mod length pxs)\<rparr>,
                      Some (Image \<lparr>bmp_width = sint (xsize info), bmp_height = sint (ysize info),
                                   bmp_format = IMV_ABGR,
                                   bmp_data = take (size_t_of_int (xsize info * ysize info * BACKEND_NB_CHANNELS))
                                                (pxs ! (k mod length pxs))\<rparr>),
                      frametime_jxl pvt' info))
         \<and> (\<forall>q. next_frame_jxl q =
                 (let q' = q\<lparr>cur_frame := (if cur_frame q = nb_frames q - 1 then 0 else cur_frame q + 1)\<rparr>
                  in case push_frame q' of
                       Inl f \<Rightarrow> Inl f
                     | Inr (img, ft) \<Rightarrow> Inr (q', Some img, ft)))"
proof -
  from decode_loop_run [of JXL_DEC_SUCCESS pvt "stack_info jxld" info pxs] obtain r where
    run: "decode_loop (start_decode pvt) (stack_info jxld) (process_input jxld) =
            Inr (decoded_state pvt info pxs r, True)"
    using assms(3) by auto
  let ?S = "decoded_state pvt info pxs r"
  have a: "nb_frames ?S = int (length pxs)"
    and a': "is_animation ?S = (if have_animation info = JXL_TRUE then 1 else 0)"
    by (simp_all add: decoded_state_fields)
  have b: "\<forall>i < length pxs. \<exists>fr. frame_at (frames ?S) (int i) = Inr fr \<and> data_frame fr = Some (pxs ! i)"
    by (simp add: decoded_state_frame)
  have c: "\<forall>k. play_jxl jxld k pvt =
                 Inr (?S\<lparr>cur_frame := int (k mod length pxs)\<rparr>,
                      Some (Image \<lparr>bmp_width = sint (xsize info), bmp_height = sint (ysize info),
                                   bmp_format = IMV_ABGR,
                                   bmp_data = take (size_t_of_int (xsize info * ysize info * BACKEND_NB_CHANNELS))
                                                (pxs ! (k mod length pxs))\<rparr>),
                      frametime_jxl ?S info)"
    using play_jxl_decoded [OF assms(1,2) run assms(4,5)] by blast
  have d: "\<forall>q. next_frame_jxl q =
                 (let q' = q\<lparr>cur_frame := (if cur_frame q = nb_frames q - 1 then 0 else cur_frame q + 1)\<rparr>
                  in case push_frame q' of
                       Inl f \<Rightarrow> Inl f
                     | Inr (img, ft) \<Rightarrow> Inr (q', Some img, ft))"
    by (simp add: next_frame_jxl_def Let_def)
  from a a' b c d show ?thesis by blast
qed

text \<open>
  The animation of three frames: the first call and the second and third calls after it.
\<close>

theorem jxl_first_frame_decodes_all_witness:
  "\<exists>pvt'.
     nb_frames pvt' = 3
   \<and> play_jxl jxld_animation 0 private_jxl_memory =
       Inr (pvt'\<lparr>cur_frame := 0\<rparr>,
            Some (Image \<lparr>bmp_width = 1, bmp_height = 1, bmp_format = IMV_ABGR, bmp_data = [0, 0, 0, 255]\<rparr>), 10)
   \<and> play_jxl jxld_animation 2 private_jxl_memory =
       Inr (pvt'\<lparr>cur_frame := 2\<rparr>,
            Some (Image \<lparr>bmp_width = 1, bmp_height = 1, bmp_format = IMV_ABGR, bmp_data = [2, 0, 0, 255]\<rparr>), 10)
   \<and> play_jxl jxld_animation 3 private_jxl_memory =
       Inr (pvt'\<lparr>cur_frame := 0\<rparr>,
            Some (Image \<lparr>bmp_width = 1, bmp_height = 1, bmp_format = IMV_ABGR, bmp_data = [0, 0, 0, 255]\<rparr>), 10)"
proof -
  let ?pxs = "[[0, 0, 0, 255], [1, 0, 0, 255], [2, 0, 0, 255]] :: byte list list"
  let ?info = "info_animation 10 1"
  have sz: "size_t_of_int (xsize ?info * ysize ?info * BACKEND_NB_CHANNELS) = 4"
    by (simp add: info_animation_def BACKEND_NB_CHANNELS_def size_t_of_int_def)
  have h: "subscribe_events jxld_animation" "set_input jxld_animation"
    "process_input jxld_animation = JXL_DEC_BASIC_INFO (Some ?info) (frames_run ?pxs JXL_DEC_SUCCESS)"
    "?pxs \<noteq> []"
    "\<forall>px \<in> set ?pxs. size_t_of_int (xsize ?info * ysize ?info * BACKEND_NB_CHANNELS) \<le> length px"
    unfolding sz by (simp_all add: jxld_animation_def)
  from jxl_first_frame_decodes_all [OF h, of private_jxl_memory] obtain pvt' where
    n: "nb_frames pvt' = int (length ?pxs)"
    and an: "is_animation pvt' = (if have_animation ?info = JXL_TRUE then 1 else 0)"
    and p: "\<And>k. play_jxl jxld_animation k private_jxl_memory =
                 Inr (pvt'\<lparr>cur_frame := int (k mod length ?pxs)\<rparr>,
                      Some (Image \<lparr>bmp_width = sint (xsize ?info), bmp_height = sint (ysize ?info),
                                   bmp_format = IMV_ABGR,
                                   bmp_data = take (size_t_of_int (xsize ?info * ysize ?info * BACKEND_NB_CHANNELS))
                                                (?pxs ! (k mod length ?pxs))\<rparr>),
                      frametime_jxl pvt' ?info)"
    by blast
  have ft: "frametime_jxl pvt' ?info = 10"
    using an by (simp add: frametime_jxl_def info_animation_def JXL_TRUE_def)
  have x: "sint (xsize ?info) = 1" "sint (ysize ?info) = 1"
    by (simp_all add: info_animation_def)
  show ?thesis
    using n p [of 0] p [of 2] p [of 3]
    unfolding sz ft x
    by (intro exI [of _ pvt']) simp
qed

text \<open>
  Claim C9. For the JPEG-XL backend, every frame \<^verbatim>\<open>load_first_frame\<close> stores has the
  frametime 0 when the input is not an animation; when it is one, the quotient of the tick
  rate numerator by the denominator, and the default of 100 exactly when the numerator or
  the denominator is 0. On a run that reports the basic info and then the frames \<open>pxs\<close>,
  however it ends, \<^verbatim>\<open>first_frame\<close> leaves a state that counts \<open>length pxs\<close> frames, each with
  that frametime \<open>d\<close>; it returns the null image when the run does not end with
  \<^verbatim>\<open>JXL_DEC_SUCCESS\<close>, and the copy of the entry at index 0 otherwise. \<open>d\<close> is the frametime
  it hands out with a stored frame, and the one every \<^verbatim>\<open>load_next_frame\<close> after it hands
  out.
\<close>

theorem jxl_frametime:
  assumes "subscribe_events jxld" and "set_input jxld"
    and "process_input jxld = JXL_DEC_BASIC_INFO (Some info) (frames_run pxs fin)"
    and "ends_run fin"
  shows "let d = (if have_animation info \<noteq> JXL_TRUE then 0
                  else if tps_numerator info = 0 \<or> tps_denominator info = 0 then BACKEND_DEFAULT_FRAMETIME
                  else sint (tps_numerator info div tps_denominator info))
         in \<exists>pvt'.
              first_frame_jxl jxld pvt =
                (if fin = JXL_DEC_SUCCESS
                 then (case push_frame pvt' of
                         Inl f \<Rightarrow> Inl f
                       | Inr (img, ft) \<Rightarrow> Inr (pvt', Some img, ft))
                 else Inr (pvt', None, 0))
            \<and> nb_frames pvt' = int (length pxs)
            \<and> (\<forall>i < length pxs. \<exists>fr. frame_at (frames pvt') (int i) = Inr fr \<and> frametime fr = d)
            \<and> (pxs \<noteq> [] \<longrightarrow>
                 (\<forall>q img ft. first_frame_jxl jxld pvt = Inr (q, Some img, ft) \<longrightarrow> ft = d))
            \<and> (fin = JXL_DEC_SUCCESS \<and> pxs \<noteq> []
                 \<and> (\<forall>px \<in> set pxs. size_t_of_int (xsize info * ysize info * BACKEND_NB_CHANNELS) \<le> length px) \<longrightarrow>
                 (\<forall>k. \<exists>q img. play_jxl jxld k pvt = Inr (q, Some img, d)))"
proof -
  define d where "d = (if have_animation info \<noteq> JXL_TRUE then 0
                  else if tps_numerator info = 0 \<or> tps_denominator info = 0 then BACKEND_DEFAULT_FRAMETIME
                  else sint (tps_numerator info div tps_denominator info))"
  from decode_loop_run [OF assms(4), of pvt "stack_info jxld" info pxs] obtain r where
    run: "decode_loop (start_decode pvt) (stack_info jxld) (process_input jxld) =
            Inr (decoded_state pvt info pxs r, fin = JXL_DEC_SUCCESS)"
    using assms(3) by auto
  define S where "S = decoded_state pvt info pxs r"
  have ft: "frametime_jxl S info = d"
    by (simp add: S_def d_def frametime_jxl_def decoded_state_fields)
  have a: "first_frame_jxl jxld pvt =
             (if fin = JXL_DEC_SUCCESS
              then (case push_frame S of
                      Inl f \<Rightarrow> Inl f
                    | Inr (img, ft) \<Rightarrow> Inr (S, Some img, ft))
              else Inr (S, None, 0))"
    unfolding S_def using assms(1,2) run by (simp add: first_frame_jxl_def)
  have b: "nb_frames S = int (length pxs)"
    by (simp add: S_def decoded_state_fields)
  have c: "\<forall>i < length pxs. \<exists>fr. frame_at (frames S) (int i) = Inr fr \<and> frametime fr = d"
    using ft by (simp add: S_def decoded_state_frame)
  have e: "pxs \<noteq> [] \<longrightarrow> (\<forall>q img ft. first_frame_jxl jxld pvt = Inr (q, Some img, ft) \<longrightarrow> ft = d)"
  proof (intro impI allI)
    fix q img t
    assume ne: "pxs \<noteq> []" and ff: "first_frame_jxl jxld pvt = Inr (q, Some img, t)"
    from ne have "0 < length pxs" by simp
    from decoded_state_frame [OF this, of pvt info r]
    have fr0: "frame_at (frames S) (cur_frame S) =
        Inr \<lparr>data_frame = Some (pxs ! 0), frametime = frametime_jxl S info\<rparr>"
      by (simp add: S_def decoded_state_fields)
    from ff a have "push_frame S = Inr (img, t)"
      by (cases "push_frame S") (auto split: if_splits)
    then have "t = frametime_jxl S info"
      unfolding push_frame_def Let_def fr0 by (auto split: sum.splits)
    with ft show "t = d" by simp
  qed
  have g: "fin = JXL_DEC_SUCCESS \<and> pxs \<noteq> []
             \<and> (\<forall>px \<in> set pxs. size_t_of_int (xsize info * ysize info * BACKEND_NB_CHANNELS) \<le> length px) \<longrightarrow>
           (\<forall>k. \<exists>q img. play_jxl jxld k pvt = Inr (q, Some img, d))"
  proof (intro impI allI)
    fix k
    assume h: "fin = JXL_DEC_SUCCESS \<and> pxs \<noteq> []
             \<and> (\<forall>px \<in> set pxs. size_t_of_int (xsize info * ysize info * BACKEND_NB_CHANNELS) \<le> length px)"
    with run have run': "decode_loop (start_decode pvt) (stack_info jxld) (process_input jxld) =
            Inr (decoded_state pvt info pxs r, True)"
      by simp
    from h have ne: "pxs \<noteq> []"
      and sz: "\<forall>px \<in> set pxs. size_t_of_int (xsize info * ysize info * BACKEND_NB_CHANNELS) \<le> length px"
      by simp_all
    from play_jxl_decoded [OF assms(1,2) run' ne sz, of k] ft
    show "\<exists>q img. play_jxl jxld k pvt = Inr (q, Some img, d)"
      by (simp add: S_def)
  qed
  from a b c e g have "\<exists>pvt'.
              first_frame_jxl jxld pvt =
                (if fin = JXL_DEC_SUCCESS
                 then (case push_frame pvt' of
                         Inl f \<Rightarrow> Inl f
                       | Inr (img, ft) \<Rightarrow> Inr (pvt', Some img, ft))
                 else Inr (pvt', None, 0))
            \<and> nb_frames pvt' = int (length pxs)
            \<and> (\<forall>i < length pxs. \<exists>fr. frame_at (frames pvt') (int i) = Inr fr \<and> frametime fr = d)
            \<and> (pxs \<noteq> [] \<longrightarrow>
                 (\<forall>q img ft. first_frame_jxl jxld pvt = Inr (q, Some img, ft) \<longrightarrow> ft = d))
            \<and> (fin = JXL_DEC_SUCCESS \<and> pxs \<noteq> []
                 \<and> (\<forall>px \<in> set pxs. size_t_of_int (xsize info * ysize info * BACKEND_NB_CHANNELS) \<le> length px) \<longrightarrow>
                 (\<forall>k. \<exists>q img. play_jxl jxld k pvt = Inr (q, Some img, d)))"
    by blast
  then show ?thesis
    unfolding Let_def d_def .
qed

text \<open>
  An animation at 10 ticks a second, an animation with a zero numerator whose run ends in
  an error, and a still image: what \<^verbatim>\<open>first_frame\<close> returns and the frametime of a frame
  it has stored.
\<close>

theorem jxl_frametime_witness:
  "(\<exists>pvt' img fr.
      first_frame_jxl jxld_animation private_jxl_memory = Inr (pvt', Some img, 10)
    \<and> nb_frames pvt' = 3 \<and> frame_at (frames pvt') 2 = Inr fr \<and> frametime fr = 10)
   \<and> (\<exists>pvt' fr.
      first_frame_jxl jxld_default_rate private_jxl_memory = Inr (pvt', None, 0)
    \<and> nb_frames pvt' = 1 \<and> frame_at (frames pvt') 0 = Inr fr \<and> frametime fr = 100)
   \<and> (\<exists>pvt' img fr.
      first_frame_jxl jxld_still private_jxl_memory = Inr (pvt', Some img, 0)
    \<and> nb_frames pvt' = 1 \<and> frame_at (frames pvt') 0 = Inr fr \<and> frametime fr = 0)"
proof -
  let ?pxs = "[[0, 0, 0, 255], [1, 0, 0, 255], [2, 0, 0, 255]] :: byte list list"
  have sz: "size_t_of_int BACKEND_NB_CHANNELS = 4"
    by (simp add: BACKEND_NB_CHANNELS_def size_t_of_int_def)
  have h1: "subscribe_events jxld_animation" "set_input jxld_animation"
    "process_input jxld_animation =
       JXL_DEC_BASIC_INFO (Some (info_animation 10 1)) (frames_run ?pxs JXL_DEC_SUCCESS)"
    "ends_run JXL_DEC_SUCCESS"
    by (simp_all add: jxld_animation_def)
  have h2: "subscribe_events jxld_default_rate" "set_input jxld_default_rate"
    "process_input jxld_default_rate =
       JXL_DEC_BASIC_INFO (Some (info_animation 0 1)) (frames_run [[0, 0, 0, 255]] JXL_DEC_ERROR)"
    "ends_run JXL_DEC_ERROR"
    by (simp_all add: jxld_default_rate_def)
  have h3: "subscribe_events jxld_still" "set_input jxld_still"
    "process_input jxld_still =
       JXL_DEC_BASIC_INFO (Some (info_still 1 1)) (frames_run [[0, 0, 0, 255]] JXL_DEC_SUCCESS)"
    "ends_run JXL_DEC_SUCCESS"
    by (simp_all add: jxld_still_def)
  from jxl_frametime [OF h1, of private_jxl_memory] obtain s1 where
    a1: "first_frame_jxl jxld_animation private_jxl_memory =
           (case push_frame s1 of Inl f \<Rightarrow> Inl f | Inr (img, ft) \<Rightarrow> Inr (s1, Some img, ft))"
    and b1: "nb_frames s1 = 3"
    and c1: "\<forall>i < 3. \<exists>fr. frame_at (frames s1) (int i) = Inr fr \<and> frametime fr = 10"
    and g1: "\<forall>k. \<exists>q img. play_jxl jxld_animation k private_jxl_memory = Inr (q, Some img, 10)"
    unfolding Let_def
    by (auto simp: info_animation_def JXL_TRUE_def sz)
  from g1 obtain q1 img1 where "play_jxl jxld_animation 0 private_jxl_memory = Inr (q1, Some img1, 10)"
    by blast
  with a1 have r1: "first_frame_jxl jxld_animation private_jxl_memory = Inr (s1, Some img1, 10)"
    by (cases "push_frame s1") auto
  from c1 [rule_format, of 2] obtain fr1 where "frame_at (frames s1) 2 = Inr fr1 \<and> frametime fr1 = 10"
    by auto
  with r1 b1 have 1: "\<exists>pvt' img fr.
      first_frame_jxl jxld_animation private_jxl_memory = Inr (pvt', Some img, 10)
    \<and> nb_frames pvt' = 3 \<and> frame_at (frames pvt') 2 = Inr fr \<and> frametime fr = 10"
    by blast
  from jxl_frametime [OF h2, of private_jxl_memory] obtain s2 where
    a2: "first_frame_jxl jxld_default_rate private_jxl_memory = Inr (s2, None, 0)"
    and b2: "nb_frames s2 = 1"
    and c2: "\<forall>i < 1. \<exists>fr. frame_at (frames s2) (int i) = Inr fr \<and> frametime fr = 100"
    unfolding Let_def
    by (auto simp: info_animation_def JXL_TRUE_def BACKEND_DEFAULT_FRAMETIME_def)
  from c2 [rule_format, of 0] obtain fr2 where "frame_at (frames s2) 0 = Inr fr2 \<and> frametime fr2 = 100"
    by auto
  with a2 b2 have 2: "\<exists>pvt' fr.
      first_frame_jxl jxld_default_rate private_jxl_memory = Inr (pvt', None, 0)
    \<and> nb_frames pvt' = 1 \<and> frame_at (frames pvt') 0 = Inr fr \<and> frametime fr = 100"
    by blast
  from jxl_frametime [OF h3, of private_jxl_memory] obtain s3 where
    a3: "first_frame_jxl jxld_still private_jxl_memory =
           (case push_frame s3 of Inl f \<Rightarrow> Inl f | Inr (img, ft) \<Rightarrow> Inr (s3, Some img, ft))"
    and b3: "nb_frames s3 = 1"
    and c3: "\<forall>i < 1. \<exists>fr. frame_at (frames s3) (int i) = Inr fr \<and> frametime fr = 0"
    and g3: "\<forall>k. \<exists>q img. play_jxl jxld_still k private_jxl_memory = Inr (q, Some img, 0)"
    unfolding Let_def
    by (auto simp: info_still_def JXL_TRUE_def sz)
  from g3 obtain q3 img3 where "play_jxl jxld_still 0 private_jxl_memory = Inr (q3, Some img3, 0)"
    by blast
  with a3 have r3: "first_frame_jxl jxld_still private_jxl_memory = Inr (s3, Some img3, 0)"
    by (cases "push_frame s3") auto
  from c3 [rule_format, of 0] obtain fr3 where "frame_at (frames s3) 0 = Inr fr3 \<and> frametime fr3 = 0"
    by auto
  with r3 b3 have 3: "\<exists>pvt' img fr.
      first_frame_jxl jxld_still private_jxl_memory = Inr (pvt', Some img, 0)
    \<and> nb_frames pvt' = 1 \<and> frame_at (frames pvt') 0 = Inr fr \<and> frametime fr = 0"
    by blast
  from 1 2 3 show ?thesis by blast
qed

section \<open>The size of the pixel buffer\<close>

text \<open>
  The buffer of an image has the length the backend computes; that length is 4 times width
  times height as long as the \<^verbatim>\<open>int\<close> product does not overflow.
\<close>

lemma memcpy_length: "memcpy src n = Inr d \<Longrightarrow> length d = n"
  by (auto simp: memcpy_def split: if_splits option.splits)

lemma push_current_image_length:
  "push_current_image private gif_frame_data = Inr (img, ft) \<Longrightarrow>
   length (bmp_data (bitmap_of img)) =
     size_t_of_int (4 * gif_width (gif private) * gif_height (gif private))"
  by (auto simp: push_current_image_def Let_def memcpy_length split: sum.splits)

lemma push_frame_length:
  "push_frame pvt = Inr (img, ft) \<Longrightarrow>
   length (bmp_data (bitmap_of img)) = size_t_of_int (width pvt * height pvt * BACKEND_NB_CHANNELS)"
  by (auto simp: push_frame_def Let_def memcpy_length split: sum.splits)

lemma load_image_length:
  "load_image lib view row_pointers p = Inr (p', Some img, ft, acts) \<Longrightarrow>
   length (bmp_data (bitmap_of img)) = unat (png_get_rowbytes lib * scast (png_get_image_height lib))"
  by (auto simp: load_image_def Let_def split: if_splits option.splits sum.splits prod.splits)

lemma size_t_of_int_exact:
  fixes w h :: "32 word"
  assumes "0 \<le> sint w" and "0 \<le> sint h" and "4 * sint w * sint h < 2 ^ 31"
  shows "size_t_of_int (w * h * 4) = nat (4 * sint w * sint h)"
proof -
  define p where "p = sint w * sint h"
  have p0: "0 \<le> p" using assms(1,2) by (simp add: p_def)
  have p4: "4 * p < 2 ^ 31" using assms(3) by (simp add: p_def mult.assoc)
  have lo: "- (2 ^ 31) \<le> p" "- (2 ^ 31) \<le> p * 4" using p0 by simp_all
  have hi: "p < 2 ^ 31" "p * 4 < 2 ^ 31" using p0 p4 by simp_all
  have "sint (w * h) = signed_take_bit 31 p"
    by (simp add: sint_word_mult p_def)
  also have "\<dots> = p" using lo(1) hi(1) by (rule signed_take_bit_int_eq_self)
  finally have wh: "sint (w * h) = p" .
  have "sint (w * h * 4) = signed_take_bit 31 (sint (w * h) * sint (4 :: 32 word))"
    using sint_word_mult [of "w * h" 4] by simp
  also have "\<dots> = signed_take_bit 31 (p * 4)" by (simp add: wh)
  also have "\<dots> = p * 4" using lo(2) hi(2) by (rule signed_take_bit_int_eq_self)
  finally have s: "sint (w * h * 4) = p * 4" .
  have "0 \<le> p * 4" "p * 4 < 2 ^ LENGTH(64)" using p0 hi(2) by simp_all
  moreover have "word_of_int (p * 4) = (scast (w * h * 4) :: 64 word)"
    by (simp only: scast_eq s)
  ultimately have "uint (scast (w * h * 4) :: 64 word) = p * 4"
    by (intro word_of_int_inverse [of "p * 4"])
  then have "size_t_of_int (w * h * 4) = nat (p * 4)"
    by (simp add: size_t_of_int_def unat_eq_nat_uint)
  also have "p * 4 = 4 * sint w * sint h" by (simp add: p_def)
  finally show ?thesis .
qed

text \<open>
  Claim C7. Every image handed to the caller has a buffer of exactly 4 times width times
  height bytes. For a frame of 32768 by 32768 pixels, decoded without error, the
  \<^verbatim>\<open>int\<close> product in \<^verbatim>\<open>push_frame\<close> is \<open>2 ^ 32\<close>, which wraps to 0: the image has width and
  height 32768 and an empty buffer. The product in \<^verbatim>\<open>push_current_image\<close> of the GIF
  backend does the same.
\<close>

theorem push_frame_jxl_size_overflow:
  "(case first_frame_jxl jxld_large private_jxl_memory of
      Inr (pvt, Some img, ft) \<Rightarrow>
        bitmap_of img = \<lparr>bmp_width = 32768, bmp_height = 32768, bmp_format = IMV_ABGR, bmp_data = []\<rparr>
    | _ \<Rightarrow> False)
   \<and> (case first_frame_gif private_gif_large of
         Inr (p, Some img, ft) \<Rightarrow>
           bitmap_of img = \<lparr>bmp_width = 32768, bmp_height = 32768, bmp_format = IMV_ABGR, bmp_data = []\<rparr>
       | _ \<Rightarrow> False)"
  by (simp add: first_frame_jxl_def jxld_large_def start_decode_def private_jxl_memory_def
      calloc_private_jxl_def info_still_def JXL_TRUE_def BACKEND_NB_ALLOC_FRAMES_def
      push_frame_def frame_at_def memcpy_def size_t_of_int_def
      BACKEND_NB_CHANNELS_def zero_frame_def frametime_jxl_def
      first_frame_gif_def private_gif_large_def gif_large_def push_current_image_def)

section \<open>Ownership of the input and teardown\<close>

lemma decode_loop_input:
  "decode_loop pvt info ev = Inr (pvt', ok) \<Longrightarrow>
   data pvt' = data pvt \<and> data_len pvt' = data_len pvt \<and> owns_data pvt' = owns_data pvt"
proof (induction ev arbitrary: pvt info)
  case (JXL_DEC_BASIC_INFO got rest)
  show ?case
  proof (cases got)
    case None
    with JXL_DEC_BASIC_INFO.prems show ?thesis by simp
  next
    case (Some info')
    with JXL_DEC_BASIC_INFO.prems have
      "decode_loop (pvt\<lparr>width := xsize info', height := ysize info',
           is_animation := (if have_animation info' = JXL_TRUE then 1 else 0)\<rparr>) info' rest = Inr (pvt', ok)"
      by simp
    from JXL_DEC_BASIC_INFO.IH [OF this] show ?thesis by simp
  qed
next
  case (JXL_DEC_NEED_IMAGE_OUT_BUFFER buf set_ok rest)
  show ?case
  proof (cases buf)
    case None
    with JXL_DEC_NEED_IMAGE_OUT_BUFFER.prems show ?thesis by simp
  next
    case (Some filled)
    define pvt1 where "pvt1 = (if nb_frames pvt = nb_allocd_frames pvt then grow_frames pvt else pvt)"
    have keep: "data pvt1 = data pvt \<and> data_len pvt1 = data_len pvt \<and> owns_data pvt1 = owns_data pvt"
      by (simp add: pvt1_def grow_frames_def)
    have eq: "decode_loop pvt info (JXL_DEC_NEED_IMAGE_OUT_BUFFER buf set_ok rest) =
        (case frames pvt1 of
           None \<Rightarrow> Inl NullDeref
         | Some xs \<Rightarrow>
             if 0 \<le> nb_frames pvt1 \<and> nb_frames pvt1 < int (length xs)
             then if \<not> set_ok
                  then Inr (pvt1\<lparr>frames := Some (xs[nat (nb_frames pvt1) :=
                         \<lparr>data_frame = Some filled, frametime = frametime_jxl pvt1 info\<rparr>])\<rparr>, False)
                  else decode_loop (pvt1\<lparr>frames := Some (xs[nat (nb_frames pvt1) :=
                         \<lparr>data_frame = Some filled, frametime = frametime_jxl pvt1 info\<rparr>])\<rparr>) info rest
             else Inl OutOfBounds)"
      unfolding Some pvt1_def by (simp add: Let_def split: option.splits)
    from JXL_DEC_NEED_IMAGE_OUT_BUFFER.prems [unfolded eq] obtain xs where xs: "frames pvt1 = Some xs"
      and inr: "0 \<le> nb_frames pvt1 \<and> nb_frames pvt1 < int (length xs)"
      by (cases "frames pvt1") (simp_all split: if_splits)
    define pvt2 where "pvt2 = pvt1\<lparr>frames := Some (xs[nat (nb_frames pvt1) :=
        \<lparr>data_frame = Some filled, frametime = frametime_jxl pvt1 info\<rparr>])\<rparr>"
    have keep2: "data pvt2 = data pvt \<and> data_len pvt2 = data_len pvt \<and> owns_data pvt2 = owns_data pvt"
      using keep by (simp add: pvt2_def)
    from JXL_DEC_NEED_IMAGE_OUT_BUFFER.prems [unfolded eq] xs inr
    have r: "(if \<not> set_ok then Inr (pvt2, False) else decode_loop pvt2 info rest) = Inr (pvt', ok)"
      by (auto simp: pvt2_def split: if_splits)
    show ?thesis
    proof (cases set_ok)
      case False
      with r have "pvt' = pvt2" by simp
      with keep2 show ?thesis by simp
    next
      case True
      with r have "decode_loop pvt2 info rest = Inr (pvt', ok)" by simp
      from JXL_DEC_NEED_IMAGE_OUT_BUFFER.IH [OF this] keep2 show ?thesis by simp
    qed
  qed
next
  case (JXL_DEC_FULL_IMAGE rest)
  then have "decode_loop (pvt\<lparr>nb_frames := nb_frames pvt + 1\<rparr>) info rest = Inr (pvt', ok)"
    by simp
  from JXL_DEC_FULL_IMAGE.IH [OF this] show ?case by simp
qed simp_all

lemma first_frame_jxl_input:
  assumes "first_frame_jxl jxld j = Inr (j', out)"
  shows "data j' = data j \<and> data_len j' = data_len j \<and> owns_data j' = owns_data j"
proof (cases "subscribe_events jxld \<and> set_input jxld")
  case False
  with assms have "j' = j" by (auto simp: first_frame_jxl_def split: if_splits)
  then show ?thesis by simp
next
  case True
  with assms obtain ok where "decode_loop (start_decode j) (stack_info jxld) (process_input jxld) = Inr (j', ok)"
    by (auto simp: first_frame_jxl_def split: sum.splits if_splits prod.splits)
  from decode_loop_input [OF this] show ?thesis by (simp add: start_decode_def)
qed

lemma next_frame_jxl_input:
  assumes "next_frame_jxl j = Inr (j', out)"
  shows "data j' = data j \<and> data_len j' = data_len j \<and> owns_data j' = owns_data j"
  using assms by (auto simp: next_frame_jxl_def Let_def split: sum.splits if_splits prod.splits)

lemma input_teardown_frames:
  "filter releases_input (map Free_frame_data ns) = []"
  by (induction ns) simp_all

lemma open_path_gif_ownership:
  "open_path_gif glib fs gpath = (BACKEND_SUCCESS, Some g) \<Longrightarrow>
   \<exists>f a. fs gpath = Some f \<and> mmap_addr f = Some a \<and> ownership_gif g = Mapped a (lseek_end f)"
  by (auto simp: open_path_gif_def ownership_gif_def split: option.splits if_splits)

lemma open_memory_gif_ownership:
  "open_memory_gif glib gbuf = (BACKEND_SUCCESS, Some g) \<Longrightarrow> ownership_gif g = Borrowed"
  by (auto simp: open_memory_gif_def ownership_gif_def split: if_splits)

lemma frame_gif_ownership:
  "first_frame_gif g = Inr (g', gout) \<or> next_frame_gif g = Inr (g', gout) \<Longrightarrow> ownership_gif g' = ownership_gif g"
    using first_frame_gif_state [of g g' gout] next_frame_gif_state [of g g' gout]
    by (auto simp: ownership_gif_def split: option.splits)

lemma free_private_gif_teardown:
  "input_teardown (free_private_gif (Some g)) = teardown_of (ownership_gif g)"
    by (cases "data_gif g") (simp_all add: input_teardown_def free_private_gif_def ownership_gif_def)

lemma open_path_jxl_ownership:
  "open_path_jxl JxlSignatureCheck fs jpath = (BACKEND_SUCCESS, Some j) \<Longrightarrow> \<exists>f a. fs jpath = Some f \<and> mmap_addr f = Some a \<and> ownership_jxl j = Mapped a (lseek_end f)"
    by (auto simp: open_path_jxl_def ownership_jxl_def calloc_private_jxl_def
        split: option.splits if_splits JxlSignature.splits)

lemma open_memory_jxl_ownership:
  "open_memory_jxl JxlSignatureCheck ja jbuf = (BACKEND_SUCCESS, Some j) \<Longrightarrow> ownership_jxl j = Borrowed"
    by (auto simp: open_memory_jxl_def ownership_jxl_def calloc_private_jxl_def
        split: JxlSignature.splits)

lemma frame_jxl_ownership:
  "first_frame_jxl jxld j = Inr (j', jout) \<or> next_frame_jxl j = Inr (j', jout) \<Longrightarrow> ownership_jxl j' = ownership_jxl j"
    using first_frame_jxl_input [of jxld j j' jout] next_frame_jxl_input [of j j' jout]
    by (auto simp: ownership_jxl_def split: option.splits)

lemma free_private_jxl_teardown:
  "input_teardown (free_private_jxl (Some j)) = teardown_of (ownership_jxl j)"
  by (cases "frames j"; cases "data j"; cases "owns_data j = 0")
    (simp_all add: input_teardown_def free_private_jxl_def ownership_jxl_def input_teardown_frames)

lemma open_path_png_ownership:
  "open_path_png plib fs ppath = (BACKEND_SUCCESS, Some p) \<Longrightarrow> \<exists>f. fs ppath = Some f \<and> ownership_png p = Stream (file_stream f)"
    by (auto simp: open_path_png_def ownership_png_def init_private_def Let_def
        split: option.splits if_splits)

text \<open>The read callback changes nothing but \<^verbatim>\<open>pos\<close>.\<close>

lemma read_calls_fields:
  "read_calls view p szs = Inr p' \<Longrightarrow>
   file_png p' = file_png p \<and> data_png p' = data_png p \<and> len_png p' = len_png p \<and> png p' = png p"
proof (induction szs arbitrary: p)
  case Nil
  then show ?case by simp
next
  case (Cons sz szs)
  from Cons.prems obtain out p1 where r: "read_memory view p sz = Inr (out, p1)"
    and rest: "read_calls view p1 szs = Inr p'"
    by (cases "read_memory view p sz") auto
  from r have "file_png p1 = file_png p \<and> data_png p1 = data_png p \<and> len_png p1 = len_png p \<and> png p1 = png p"
    by (auto simp: read_memory_def split: if_splits sum.splits)
  with Cons.IH [OF rest] show ?case by simp
qed

lemma png_reads_fields:
  "png_reads view p szs = Inr p' \<Longrightarrow>
   file_png p' = file_png p \<and> data_png p' = data_png p \<and> len_png p' = len_png p \<and> png p' = png p"
  using read_calls_fields [of view p szs p'] by (auto simp: png_reads_def split: if_splits)

lemma open_memory_png_ownership:
  assumes "open_memory_png plib pa mem len = Inr (BACKEND_SUCCESS, Some p)"
  shows "ownership_png p = Borrowed"
proof -
  define p0 where "p0 = \<lparr>file_png = None, data_png = Some (pa + SIG_SIZE),
      len_png = of_nat len - of_nat SIG_SIZE, pos = 0, png = True\<rparr>"
  from assms have "read_calls (drop SIG_SIZE mem) p0 (png_read_info_reads plib) = Inr p"
    by (auto simp: open_memory_png_def init_private_def Let_def p0_def
        split: option.splits if_splits sum.splits)
  from read_calls_fields [OF this] show ?thesis
    by (simp add: ownership_png_def p0_def)
qed

lemma load_image_failed_ownership:
  assumes "load_image plib view row_pointers p = Inr (p', None, ft, acts)"
  shows "ownership_png p' = ownership_png p \<and> acts = []"
proof -
  from assms have "png_reads view p (png_read_image_reads plib) = Inr p' \<and> acts = []"
    by (auto simp: load_image_def Let_def split: option.splits if_splits sum.splits prod.splits)
  with png_reads_fields [of view p "png_read_image_reads plib" p']
  show ?thesis by (simp add: ownership_png_def)
qed

text \<open>\<^verbatim>\<open>read_end\<close> releases what is owned, and nothing is owned after it.\<close>

lemma read_end_teardown:
  "read_end p = (p', acts) \<Longrightarrow>
   input_teardown acts = teardown_of (ownership_png p) \<and> ownership_png p' = Borrowed"
  by (cases "file_png p"; cases "png p")
    (auto simp: read_end_def ownership_png_def input_teardown_def)

lemma load_image_closes_stream:
  assumes "load_image plib view row_pointers p = Inr (p', Some img, ft, acts)"
  shows "input_teardown acts = teardown_of (ownership_png p) \<and> ownership_png p' = Borrowed"
proof -
  from assms obtain p1 where reads: "png_reads view p (png_read_image_reads plib) = Inr p1"
    and re: "read_end p1 = (p', acts)"
    by (auto simp: load_image_def Let_def split: option.splits if_splits sum.splits prod.splits)
  from png_reads_fields [OF reads] have "ownership_png p1 = ownership_png p"
    by (simp add: ownership_png_def)
  with read_end_teardown [OF re] show ?thesis by simp
qed

lemma free_private_png_teardown:
  "input_teardown (free_private_png (Some p)) = teardown_of (ownership_png p)"
  by (cases "file_png p"; cases "png p")
    (simp_all add: input_teardown_def free_private_png_def read_end_def ownership_png_def)

lemma load_image_then_free_private:
  assumes "load_image plib view row_pointers p = Inr (p', out, ft, acts)"
  shows "input_teardown (acts @ free_private_png (Some p')) = teardown_of (ownership_png p)"
proof (cases out)
  case None
  with assms load_image_failed_ownership [of plib view row_pointers p p' ft acts]
    free_private_png_teardown [of p']
  show ?thesis by (simp add: input_teardown_def)
next
  case (Some img)
  with assms load_image_closes_stream [of plib view row_pointers p p' img ft acts]
    free_private_png_teardown [of p']
  show ?thesis by (simp add: input_teardown_def)
qed

text \<open>
  Claim C8, as the code has it. What a source owns of its input is fixed by the open
  function: a mapped region for \<^verbatim>\<open>open_path\<close> of the GIF and JPEG-XL backends, an open
  stream for \<^verbatim>\<open>open_path\<close> of the PNG backend, nothing for every \<^verbatim>\<open>open_memory\<close>. The
  frame functions of the GIF and JPEG-XL backends leave it as it is. \<^verbatim>\<open>load_image\<close> of the
  PNG backend releases nothing and leaves it as it is when the decode fails; when the
  decode succeeds it releases what is owned itself (it closes the stream of a source
  opened by path), and the source owns nothing afterwards. \<^verbatim>\<open>free_private\<close> releases
  exactly what is owned when it is called: it unmaps the region, closes the stream, or
  releases no input. So a \<^verbatim>\<open>load_image\<close> and the \<^verbatim>\<open>free_private\<close> after it release
  together what was owned before, once.
\<close>

theorem input_teardown_matches_ownership:
  "(open_path_gif glib fs gpath = (BACKEND_SUCCESS, Some g) \<longrightarrow>
      (\<exists>f a. fs gpath = Some f \<and> mmap_addr f = Some a \<and> ownership_gif g = Mapped a (lseek_end f)))
   \<and> (open_memory_gif glib gbuf = (BACKEND_SUCCESS, Some g) \<longrightarrow> ownership_gif g = Borrowed)
   \<and> (first_frame_gif g = Inr (g', gout) \<or> next_frame_gif g = Inr (g', gout) \<longrightarrow>
        ownership_gif g' = ownership_gif g)
   \<and> input_teardown (free_private_gif (Some g)) = teardown_of (ownership_gif g)
   \<and> (open_path_jxl JxlSignatureCheck fs jpath = (BACKEND_SUCCESS, Some j) \<longrightarrow>
        (\<exists>f a. fs jpath = Some f \<and> mmap_addr f = Some a \<and> ownership_jxl j = Mapped a (lseek_end f)))
   \<and> (open_memory_jxl JxlSignatureCheck ja jbuf = (BACKEND_SUCCESS, Some j) \<longrightarrow> ownership_jxl j = Borrowed)
   \<and> (first_frame_jxl jxld j = Inr (j', jout) \<or> next_frame_jxl j = Inr (j', jout) \<longrightarrow>
        ownership_jxl j' = ownership_jxl j)
   \<and> input_teardown (free_private_jxl (Some j)) = teardown_of (ownership_jxl j)
   \<and> (open_path_png plib fs ppath = (BACKEND_SUCCESS, Some p) \<longrightarrow>
        (\<exists>f. fs ppath = Some f \<and> ownership_png p = Stream (file_stream f)))
   \<and> (open_memory_png plib pa mem len = Inr (BACKEND_SUCCESS, Some p) \<longrightarrow> ownership_png p = Borrowed)
   \<and> (load_image plib view row_pointers p = Inr (p', None, ft, acts) \<longrightarrow>
        acts = [] \<and> ownership_png p' = ownership_png p)
   \<and> (load_image plib view row_pointers p = Inr (p', Some img, ft, acts) \<longrightarrow>
        input_teardown acts = teardown_of (ownership_png p) \<and> ownership_png p' = Borrowed)
   \<and> (load_image plib view row_pointers p = Inr (p', out, ft, acts) \<longrightarrow>
        input_teardown (acts @ free_private_png (Some p')) = teardown_of (ownership_png p))
   \<and> input_teardown (free_private_png (Some p)) = teardown_of (ownership_png p)"
  using open_path_gif_ownership [of glib fs gpath g] open_memory_gif_ownership [of glib gbuf g]
    frame_gif_ownership [of g g' gout] free_private_gif_teardown [of g]
    open_path_jxl_ownership [of JxlSignatureCheck fs jpath j]
    open_memory_jxl_ownership [of JxlSignatureCheck ja jbuf j]
    frame_jxl_ownership [of jxld j j' jout] free_private_jxl_teardown [of j]
    open_path_png_ownership [of plib fs ppath p] open_memory_png_ownership [of plib pa mem len p]
    load_image_failed_ownership [of plib view row_pointers p p' ft acts]
    load_image_closes_stream [of plib view row_pointers p p' img ft acts]
    load_image_then_free_private [of plib view row_pointers p p' out ft acts]
    free_private_png_teardown [of p]
  by blast

text \<open>
  The claim as stated names three disciplines. A PNG source opened by path has none of
  them: its \<^verbatim>\<open>free_private\<close> closes a stream, which is neither an unmapping, nor a
  \<^verbatim>\<open>free\<close> of input, nor no release of input; and a successful \<^verbatim>\<open>load_first_frame\<close> closes
  that stream itself, after which the same source releases no input any more.
\<close>

theorem png_path_teardown_counterexample:
  "open_path_png libpng1 media_files ''a.png'' = (BACKEND_SUCCESS, Some private_png_path)
   \<and> free_private_png (Some private_png_path) = [Png_destroy_read_struct, Fclose 3, Free_private]
   \<and> \<not> spec_teardown Memory_mapped (free_private_png (Some private_png_path))
   \<and> \<not> spec_teardown Heap_owned (free_private_png (Some private_png_path))
   \<and> \<not> spec_teardown Caller_owned (free_private_png (Some private_png_path))
   \<and> (case load_image libpng1 [] True private_png_path of
         Inr (p', Some img, ft, acts) \<Rightarrow>
           acts = [Png_destroy_read_struct, Fclose 3] \<and> free_private_png (Some p') = [Free_private]
       | _ \<Rightarrow> False)"
  by (simp add: open_path_png_def libpng1_def media_files_def png_file_def png_head_def SIG_SIZE_def
      png_sig_cmp_def png_signature_def init_private_def setup_png_def private_png_path_def
      free_private_png_def read_end_def input_teardown_def load_image_def png_reads_def)

text \<open>
  The sources opened by path from the three files, and the sources opened from memory:
  what each owns, what its \<^verbatim>\<open>free_private\<close> releases, and for the PNG source opened by
  path what a successful \<^verbatim>\<open>load_image\<close> releases and leaves to release.
\<close>

theorem input_teardown_matches_ownership_witness:
  "(ownership_gif private_gif_path = Mapped 8192 6
    \<and> input_teardown (free_private_gif (Some private_gif_path)) = [Munmap (Some 8192) 6]
    \<and> ownership_jxl private_jxl_path = Mapped 12288 2
    \<and> input_teardown (free_private_jxl (Some private_jxl_path)) = [Munmap (Some 12288) 2]
    \<and> ownership_jxl ((start_decode private_jxl_path)\<lparr>width := 1, height := 1, is_animation := 0\<rparr>) =
        Mapped 12288 2
    \<and> ownership_png private_png_path = Stream 3
    \<and> input_teardown (free_private_png (Some private_png_path)) = [Fclose 3]
    \<and> input_teardown [Png_destroy_read_struct, Fclose 3] = [Fclose 3]
    \<and> ownership_png (private_png_path\<lparr>file_png := None, png := False\<rparr>) = Borrowed
    \<and> input_teardown ([Png_destroy_read_struct, Fclose 3]
          @ free_private_png (Some (private_png_path\<lparr>file_png := None, png := False\<rparr>))) = [Fclose 3])
   \<and> (ownership_gif private_gif3 = Borrowed
    \<and> ownership_gif (private_gif3\<lparr>current_frame := 1\<rparr>) = Borrowed
    \<and> input_teardown (free_private_gif (Some private_gif3)) = []
    \<and> ownership_jxl private_jxl_memory = Borrowed
    \<and> input_teardown (free_private_jxl (Some private_jxl_memory)) = []
    \<and> ownership_png private_png_memory = Borrowed
    \<and> input_teardown (free_private_png (Some private_png_memory)) = [])"
proof -
  let ?img0 = "Image \<lparr>bmp_width = 1, bmp_height = 1, bmp_format = IMV_ABGR, bmp_data = [0, 0, 0, 255]\<rparr>"
  let ?img1 = "Image \<lparr>bmp_width = 1, bmp_height = 1, bmp_format = IMV_ABGR, bmp_data = [1, 0, 0, 255]\<rparr>"
  let ?white = "Image \<lparr>bmp_width = 1, bmp_height = 1, bmp_format = IMV_ABGR, bmp_data = [255, 255, 255, 255]\<rparr>"
  let ?jp = "(start_decode private_jxl_path)\<lparr>width := 1, height := 1, is_animation := 0\<rparr>"
  let ?jm = "(start_decode private_jxl_memory)\<lparr>width := 1, height := 1, is_animation := 0\<rparr>"
  let ?closed = "private_png_path\<lparr>file_png := None, png := False\<rparr>"
  have files: "media_files ''a.gif'' = Some gif_file" "media_files ''a.jxl'' = Some jxl_file"
    "media_files ''a.png'' = Some png_file"
    by (simp_all add: media_files_def)
  have gp: "open_path_gif gif3_lib media_files ''a.gif'' = (BACKEND_SUCCESS, Some private_gif_path)"
    by (simp add: open_path_gif_def files gif_file_def gif3_lib_def private_gif_path_def)
  have gpf: "first_frame_gif private_gif_path = Inr (private_gif_path, Some ?img0, 100)"
    by (simp add: first_frame_gif_def private_gif_path_def gif3_def push_current_image_def
        memcpy_def size_t_of_int_def)
  have jp: "open_path_jxl jxl_sig media_files ''a.jxl'' = (BACKEND_SUCCESS, Some private_jxl_path)"
    by (simp add: open_path_jxl_def files jxl_file_def jxl_sig_def private_jxl_path_def)
  have jpf: "first_frame_jxl jxld_error private_jxl_path = Inr (?jp, None, 0)"
    by (simp add: first_frame_jxl_def jxld_error_def info_still_def JXL_TRUE_def)
  have pp: "open_path_png libpng1 media_files ''a.png'' = (BACKEND_SUCCESS, Some private_png_path)"
    by (simp add: open_path_png_def files png_file_def libpng1_def png_head_def SIG_SIZE_def
        png_sig_cmp_def png_signature_def init_private_def setup_png_def private_png_path_def)
  have white: "map (\<lambda>i. 255 :: byte) [0..<4] = [255, 255, 255, 255]"
    by (simp add: upt_rec)
  have ppl: "load_image libpng1 [] True private_png_path =
      Inr (?closed, Some ?white, 0, [Png_destroy_read_struct, Fclose 3])"
    by (simp add: load_image_def libpng1_def private_png_path_def read_end_def png_reads_def white)
  have gm: "open_memory_gif gif3_lib [71, 73, 70, 56, 57, 97] = (BACKEND_SUCCESS, Some private_gif3)"
    by (simp add: open_memory_gif_def gif3_lib_def private_gif3_def)
  have gmn: "next_frame_gif private_gif3 = Inr (private_gif3\<lparr>current_frame := 1\<rparr>, Some ?img1, 100)"
    by (simp add: next_frame_gif_def private_gif3_def gif3_def push_current_image_def
        memcpy_def size_t_of_int_def)
  have jm: "open_memory_jxl jxl_sig 4096 [255, 10] = (BACKEND_SUCCESS, Some private_jxl_memory)"
    by (simp add: open_memory_jxl_def jxl_sig_def private_jxl_memory_def)
  have jmf: "first_frame_jxl jxld_error private_jxl_memory = Inr (?jm, None, 0)"
    by (simp add: first_frame_jxl_def jxld_error_def info_still_def JXL_TRUE_def)
  have pm: "open_memory_png libpng_corrupt 4096 png_head 16 = Inr (BACKEND_SUCCESS, Some private_png_memory)"
    by (simp add: open_memory_png_def libpng_corrupt_def libpng1_def png_head_def SIG_SIZE_def
        png_sig_cmp_def png_signature_def init_private_def setup_png_def private_png_memory_def
        read_memory_def memcpy_def)
  have pml: "load_image libpng_corrupt (drop SIG_SIZE png_head) True private_png_memory =
      Inr (private_png_memory, None, 0, [])"
    by (simp add: load_image_def libpng_corrupt_def libpng1_def private_png_memory_def
        png_reads_def read_memory_def)
  note path_mode = input_teardown_matches_ownership [where glib = gif3_lib and fs = media_files
      and gpath = "''a.gif''" and g = private_gif_path and gbuf = "[]" and g' = private_gif_path
      and gout = "(Some ?img0, 100)" and JxlSignatureCheck = jxl_sig and jpath = "''a.jxl''"
      and j = private_jxl_path and ja = 0 and jbuf = "[]" and jxld = jxld_error and j' = ?jp
      and jout = "(None, 0)" and plib = libpng1 and ppath = "''a.png''" and p = private_png_path
      and pa = 0 and mem = "[]" and len = 0 and view = "[]" and row_pointers = True
      and p' = ?closed and img = ?white and out = "Some ?white" and ft = 0
      and acts = "[Png_destroy_read_struct, Fclose 3]"]
  note memory_mode = input_teardown_matches_ownership [where glib = gif3_lib and fs = media_files
      and gpath = "''a.gif''" and g = private_gif3 and gbuf = "[71, 73, 70, 56, 57, 97]"
      and g' = "private_gif3\<lparr>current_frame := 1\<rparr>"
      and gout = "(Some ?img1, 100)" and JxlSignatureCheck = jxl_sig and jpath = "''a.jxl''"
      and j = private_jxl_memory and ja = 4096 and jbuf = "[255, 10]" and jxld = jxld_error and j' = ?jm
      and jout = "(None, 0)" and plib = libpng_corrupt and ppath = "''a.png''" and p = private_png_memory
      and pa = 4096 and mem = png_head and len = 16 and view = "drop SIG_SIZE png_head"
      and row_pointers = True and p' = private_png_memory and img = ?white and out = None and ft = 0
      and acts = "[]"]
  have a: "ownership_gif private_gif_path = Mapped 8192 6"
    "ownership_jxl private_jxl_path = Mapped 12288 2"
    "ownership_png private_png_path = Stream 3"
    using path_mode gp jp pp files by (simp_all add: gif_file_def jxl_file_def png_file_def)
  have a': "ownership_jxl ?jp = ownership_jxl private_jxl_path"
    "ownership_png ?closed = Borrowed"
    "input_teardown [Png_destroy_read_struct, Fclose 3] = teardown_of (ownership_png private_png_path)"
    "input_teardown ([Png_destroy_read_struct, Fclose 3] @ free_private_png (Some ?closed)) =
       teardown_of (ownership_png private_png_path)"
    using path_mode jpf ppl by simp_all
  have a'': "input_teardown (free_private_gif (Some private_gif_path)) = teardown_of (ownership_gif private_gif_path)"
    "input_teardown (free_private_jxl (Some private_jxl_path)) = teardown_of (ownership_jxl private_jxl_path)"
    "input_teardown (free_private_png (Some private_png_path)) = teardown_of (ownership_png private_png_path)"
    using path_mode by simp_all
  have b: "ownership_gif private_gif3 = Borrowed" "ownership_jxl private_jxl_memory = Borrowed"
    "ownership_png private_png_memory = Borrowed"
    using memory_mode gm jm pm by simp_all
  have b': "ownership_gif (private_gif3\<lparr>current_frame := 1\<rparr>) = ownership_gif private_gif3"
    using memory_mode gmn by simp
  have b'': "input_teardown (free_private_gif (Some private_gif3)) = teardown_of (ownership_gif private_gif3)"
    "input_teardown (free_private_jxl (Some private_jxl_memory)) = teardown_of (ownership_jxl private_jxl_memory)"
    "input_teardown (free_private_png (Some private_png_memory)) = teardown_of (ownership_png private_png_memory)"
    using memory_mode by simp_all
  show ?thesis
    unfolding a'' b'' a' b' a b by simp
qed

end
